theory Spec2Isabelle
  imports Complex_Main "HOL-Library.AList"
begin

section \<open>JavaScript values used by the gateway\<close>

text \<open>
  Strings are lists of 8-bit characters (the UTF-8 bytes of the JavaScript string).
  A plain JavaScript object used as a dictionary (\<^verbatim>\<open>Record<string, T>\<close>) is the
  association list of its own enumerable properties, in the order \<^verbatim>\<open>Object.entries\<close>,
  \<^verbatim>\<open>Object.keys\<close> and \<^verbatim>\<open>JSON.stringify\<close> enumerate them: the array indices first, ascending,
  then the other names in insertion order.
\<close>

type_synonym 'v jsrecord = "(string \<times> 'v) list"

text \<open>
  Reading \<^verbatim>\<open>obj[key]\<close> on an ordinary object first looks at the own properties and then
  walks the prototype chain. An ordinary object (object literal, \<^verbatim>\<open>JSON.parse\<close>, YAML
  loader) has \<^verbatim>\<open>Object.prototype\<close> as its prototype, whose property names are fixed by
  ECMAScript (including Annex B). Every inherited value is a function or, for
  \<^verbatim>\<open>__proto__\<close>, the prototype object itself: truthy, and without a \<^verbatim>\<open>uri\<close> member.
\<close>

definition object_prototype_keys :: "string list" where
  "object_prototype_keys =
     [''constructor'', ''__defineGetter__'', ''__defineSetter__'', ''hasOwnProperty'',
      ''__lookupGetter__'', ''__lookupSetter__'', ''isPrototypeOf'', ''propertyIsEnumerable'',
      ''toString'', ''valueOf'', ''__proto__'', ''toLocaleString'']"

datatype 'v js_prop = Own 'v | Inherited | Undefined

definition js_get :: "'v jsrecord \<Rightarrow> string \<Rightarrow> 'v js_prop" where
  "js_get obj k =
     (case map_of obj k of
        Some v \<Rightarrow> Own v
      | None \<Rightarrow> if k \<in> set object_prototype_keys then Inherited else Undefined)"

text \<open>\<^verbatim>\<open>a || b\<close> on two property reads whose own values are objects (always truthy).\<close>

fun js_or :: "'v js_prop \<Rightarrow> 'v js_prop \<Rightarrow> 'v js_prop" where
  "js_or Undefined b = b"
| "js_or a b = a"

fun truthy :: "'v js_prop \<Rightarrow> bool" where
  "truthy Undefined = False"
| "truthy a = True"

text \<open>\<^verbatim>\<open>String.prototype.toLowerCase\<close> on the ASCII range (header names are ASCII).\<close>

definition toLowerCase_char :: "char \<Rightarrow> char" where
  "toLowerCase_char c =
     (let n = (of_char c :: nat) in if 65 \<le> n \<and> n \<le> 90 then char_of (n + 32) else c)"

definition toLowerCase :: "string \<Rightarrow> string" where
  "toLowerCase s = map toLowerCase_char s"

text \<open>\<^verbatim>\<open>s.replace(pat, rep)\<close> with a string pattern: the first occurrence only.\<close>

fun replace_first :: "string \<Rightarrow> string \<Rightarrow> string \<Rightarrow> string" where
  "replace_first pat rep [] = (if pat = [] then rep else [])"
| "replace_first pat rep (c # cs) =
     (if take (length pat) (c # cs) = pat then rep @ drop (length pat) (c # cs)
      else c # replace_first pat rep cs)"

text \<open>\<^verbatim>\<open>s.split('.')\<close>: the segments between dots; never an empty list.\<close>

fun split_dot :: "string \<Rightarrow> string list" where
  "split_dot [] = [[]]"
| "split_dot (c # cs) =
     (if c = CHR ''.'' then [] # split_dot cs
      else (case split_dot cs of [] \<Rightarrow> [[c]] | seg # segs \<Rightarrow> (c # seg) # segs))"

subsection \<open>Decimal numerals\<close>

definition digit_chars :: string where
  "digit_chars = ''0123456789''"

definition digit_char :: "nat \<Rightarrow> char" where
  "digit_char n = digit_chars ! (n mod 10)"

definition is_digit :: "char \<Rightarrow> bool" where
  "is_digit c = (c \<in> set digit_chars)"

fun nat_toString :: "nat \<Rightarrow> string" where
  "nat_toString n =
     (if n < 10 then [digit_char n] else nat_toString (n div 10) @ [digit_char (n mod 10)])"

declare nat_toString.simps [simp del]

text \<open>\<^verbatim>\<open>Number.prototype.toString()\<close> of an integer.\<close>

definition int_toString :: "int \<Rightarrow> string" where
  "int_toString i = (if i < 0 then CHR ''-'' # nat_toString (nat (- i)) else nat_toString (nat i))"

text \<open>\<^verbatim>\<open>s.padStart(2, '0')\<close>.\<close>

definition padStart2 :: "string \<Rightarrow> string" where
  "padStart2 s = replicate (2 - length s) CHR ''0'' @ s"

text \<open>
  The canonical array index a property name denotes: decimal digits without a leading
  zero (other than \<^verbatim>\<open>0\<close> itself).
\<close>

definition digit_val :: "char \<Rightarrow> nat" where
  "digit_val c = (of_char c :: nat) - 48"

definition digits_val :: "string \<Rightarrow> nat" where
  "digits_val s = foldl (\<lambda>acc c. 10 * acc + digit_val c) 0 s"

definition array_index :: "string \<Rightarrow> nat option" where
  "array_index key =
     (case key of
        [] \<Rightarrow> None
      | c # cs \<Rightarrow>
          if list_all is_digit key \<and> (if c = CHR ''0'' then cs = [] else True)
          then Some (digits_val key) else None)"

subsection \<open>Assignment to a property\<close>

text \<open>
  A property name is an array index when it is a canonical numeral below \<open>2\<^sup>3\<^sup>2 - 1\<close>. A new
  own property with such a name is enumerated among the array indices, in ascending order;
  any other new property is enumerated last.
\<close>

definition own_index :: "string \<Rightarrow> nat option" where
  "own_index key =
     (case array_index key of
        None \<Rightarrow> None
      | Some n \<Rightarrow> if n < 4294967295 then Some n else None)"

fun insert_own :: "string \<Rightarrow> 'v \<Rightarrow> 'v jsrecord \<Rightarrow> 'v jsrecord" where
  "insert_own k v [] = [(k, v)]"
| "insert_own k v ((k', v') # rest) =
     (case own_index k of
        None \<Rightarrow> (k', v') # insert_own k v rest
      | Some n \<Rightarrow>
          (case own_index k' of
             None \<Rightarrow> (k, v) # (k', v') # rest
           | Some m \<Rightarrow>
               if m < n then (k', v') # insert_own k v rest else (k, v) # (k', v') # rest))"

text \<open>
  The assignment \<^verbatim>\<open>obj[key] = value\<close> on an ordinary object: it overwrites an own property
  in place or creates one, except for the key \<^verbatim>\<open>__proto__\<close>, which reaches the inherited
  setter and never creates an own property.
\<close>

definition js_assign :: "string \<Rightarrow> 'v \<Rightarrow> 'v jsrecord \<Rightarrow> 'v jsrecord" where
  "js_assign k v obj =
     (if k = ''__proto__'' then obj
      else if map_of obj k \<noteq> None then AList.update k v obj
      else insert_own k v obj)"

section \<open>Types of the gateway (types.ts)\<close>

record RouteIntegration =
  uri :: string

datatype IntegrationMode = lambda_proxy | http

record GatewayConfig =
  port :: nat
  stage :: string
  apiId :: string
  domainName :: string
  integrationMode :: IntegrationMode
  routeSelectionExpression :: "string option"
  routes :: "RouteIntegration jsrecord"
  idleTimeout :: int
  hardTimeout :: int
  verbose :: bool

definition DEFAULT_CONFIG :: GatewayConfig where
  "DEFAULT_CONFIG =
     \<lparr> port = 3001, stage = ''local'', apiId = ''local'', domainName = '''',
       integrationMode = lambda_proxy, routeSelectionExpression = None,
       routes = [(''$connect'', \<lparr> uri = ''http://localhost:8080/ws/connect'' \<rparr>),
                 (''$disconnect'', \<lparr> uri = ''http://localhost:8080/ws/disconnect'' \<rparr>),
                 (''$default'', \<lparr> uri = ''http://localhost:8080/ws/default'' \<rparr>)],
       idleTimeout = 600, hardTimeout = 7200, verbose = False \<rparr>"

text \<open>
  A connection. \<open>ws\<close> is the handle of the WebSocket object; times are milliseconds since
  the epoch (the time value of the \<^verbatim>\<open>Date\<close>). The field \<^verbatim>\<open>id\<close> is called \<open>conn_id\<close>.
\<close>

record Connection =
  conn_id :: string
  ws :: nat
  connectedAt :: int
  lastActivityAt :: int
  queryParams :: "string jsrecord"
  headers :: "string jsrecord"
  sourceIp :: string
  userAgent :: string

datatype EventType = CONNECT | DISCONNECT | MESSAGE

record AWSIdentity =
  id_sourceIp :: string
  id_userAgent :: string

text \<open>The fields of \<^verbatim>\<open>AWSRequestContext\<close>, prefixed \<open>rc_\<close>.\<close>

record AWSRequestContext =
  rc_routeKey :: string
  rc_eventType :: EventType
  rc_extendedRequestId :: string
  rc_requestTime :: string
  rc_messageDirection :: string
  rc_stage :: string
  rc_connectedAt :: int
  rc_requestTimeEpoch :: int
  rc_identity :: AWSIdentity
  rc_requestId :: string
  rc_domainName :: string
  rc_connectionId :: string
  rc_apiId :: string
  rc_messageId :: "string option"
  rc_disconnectStatusCode :: "int option"
  rc_disconnectReason :: "string option"

text \<open>The fields of \<^verbatim>\<open>AWSWebSocketEvent\<close>, prefixed \<open>ev_\<close>; \<open>None\<close> is the literal null.\<close>

record AWSWebSocketEvent =
  ev_requestContext :: AWSRequestContext
  ev_headers :: "string jsrecord"
  ev_multiValueHeaders :: "string list jsrecord"
  ev_queryStringParameters :: "string jsrecord option"
  ev_body :: "string option"
  ev_isBase64Encoded :: bool

record DisconnectOptions =
  disconnectStatusCode :: int
  disconnectReason :: string

section \<open>Time values (the ECMAScript date algorithms behind the UTC getters)\<close>

definition msPerDay :: int where "msPerDay = 86400000"
definition msPerHour :: int where "msPerHour = 3600000"
definition msPerMinute :: int where "msPerMinute = 60000"
definition msPerSecond :: int where "msPerSecond = 1000"

definition Day :: "int \<Rightarrow> int" where
  "Day t = t div msPerDay"

definition DaysInYear :: "int \<Rightarrow> int" where
  "DaysInYear y =
     (if y mod 4 \<noteq> 0 then 365 else if y mod 100 \<noteq> 0 then 366
      else if y mod 400 \<noteq> 0 then 365 else 366)"

definition DayFromYear :: "int \<Rightarrow> int" where
  "DayFromYear y =
     365 * (y - 1970) + (y - 1969) div 4 - (y - 1901) div 100 + (y - 1601) div 400"

text \<open>
  \<open>YearFromTime\<close> is the largest year whose first day is not after the given day. It is
  found by walking from 1970, upwards for days from the epoch on and downwards before it.
\<close>

lemma mod_top_iff_dvd:
  fixes a n :: int
  assumes n: "0 < n"
  shows "(a mod n = n - 1) = (n dvd a + 1)"
proof
  assume h: "a mod n = n - 1"
  define p where "p = n * (a div n)"
  have "p + a mod n = a" unfolding p_def by simp
  then have "a + 1 = p + n" using h by linarith
  then have "a + 1 = n * (a div n + 1)" unfolding p_def by (simp add: algebra_simps)
  then show "n dvd a + 1" by simp
next
  assume "n dvd a + 1"
  then obtain k where k: "a + 1 = n * k" by (auto elim: dvdE)
  have "a = n * (k - 1) + (n - 1)" using k by (simp add: algebra_simps)
  moreover have "0 \<le> n - 1" "n - 1 < n" using n by simp_all
  ultimately show "a mod n = n - 1" by (rule int_mod_pos_eq)
qed

lemma div_step:
  fixes a n :: int
  assumes n: "0 < n"
  shows "(a + 1) div n = (if n dvd a + 1 then a div n + 1 else a div n)"
proof (cases "n dvd a + 1")
  case True
  then have h: "a mod n = n - 1" using mod_top_iff_dvd[OF n] by simp
  define p where "p = n * (a div n)"
  have "p + a mod n = a" unfolding p_def by simp
  then have "a + 1 = p + n" using h by linarith
  then have "a + 1 = n * (a div n + 1) + 0" unfolding p_def by (simp add: algebra_simps)
  moreover have "(0::int) \<le> 0" by simp
  ultimately have "(a + 1) div n = a div n + 1" using n by (rule int_div_pos_eq)
  then show ?thesis using True by simp
next
  case False
  then have h: "a mod n \<noteq> n - 1" using mod_top_iff_dvd[OF n] by simp
  have b: "a mod n < n" "0 \<le> a mod n" using n by simp_all
  have "a + 1 = n * (a div n) + (a mod n + 1)" by simp
  moreover have "0 \<le> a mod n + 1" using b by simp
  moreover have "a mod n + 1 < n" using b h by linarith
  ultimately have "(a + 1) div n = a div n" by (rule int_div_pos_eq)
  then show ?thesis using False by simp
qed

lemma div_step_shift:
  fixes y n c :: int
  assumes n: "0 < n" and c: "n dvd c - 1"
  shows "(y + 1 - c) div n = (if n dvd y then (y - c) div n + 1 else (y - c) div n)"
proof -
  have eq: "(y - c) + 1 = y - (c - 1)" by simp
  have iff: "(n dvd (y - c) + 1) = (n dvd y)"
    by (simp only: eq dvd_diff_left_iff[OF c])
  have "y + 1 - c = (y - c) + 1" by simp
  then show ?thesis using div_step[OF n, of "y - c"] by (simp only: iff)
qed

lemma DayFromYear_Suc: "DayFromYear (y + 1) = DayFromYear y + DaysInYear y"
proof -
  have e4: "(y + 1 - 1969) div 4 = (if 4 dvd y then (y - 1969) div 4 + 1 else (y - 1969) div 4)"
    by (rule div_step_shift) simp_all
  have e100: "(y + 1 - 1901) div 100 =
      (if 100 dvd y then (y - 1901) div 100 + 1 else (y - 1901) div 100)"
    by (rule div_step_shift) simp_all
  have e400: "(y + 1 - 1601) div 400 =
      (if 400 dvd y then (y - 1601) div 400 + 1 else (y - 1601) div 400)"
    by (rule div_step_shift) simp_all
  have d: "DaysInYear y =
      (if \<not> 4 dvd y then 365 else if \<not> 100 dvd y then 366
       else if \<not> 400 dvd y then 365 else 366)"
    by (simp add: DaysInYear_def dvd_eq_mod_eq_0)
  have t1: "400 dvd y \<Longrightarrow> 100 dvd y"
    by (rule dvd_trans[of 100 400 y]) simp_all
  have t2: "100 dvd y \<Longrightarrow> 4 dvd y"
    by (rule dvd_trans[of 4 100 y]) simp_all
  show ?thesis unfolding DayFromYear_def d e4 e100 e400 using t1 t2 by auto
qed

lemma DaysInYear_pos: "0 < DaysInYear y"
  by (simp add: DaysInYear_def)

function year_up :: "int \<Rightarrow> int \<Rightarrow> int" where
  "year_up y d = (if DayFromYear (y + 1) \<le> d then year_up (y + 1) d else y)"
  by pat_completeness auto
termination
proof (relation "measure (\<lambda>(y, d). nat (d + 1 - DayFromYear (y + 1)))")
  show "wf (measure (\<lambda>(y, d). nat (d + 1 - DayFromYear (y + 1))))" by simp
next
  fix y d :: int
  assume "DayFromYear (y + 1) \<le> d"
  moreover have "DayFromYear ((y + 1) + 1) = DayFromYear (y + 1) + DaysInYear (y + 1)"
    by (rule DayFromYear_Suc)
  moreover have "0 < DaysInYear (y + 1)" by (rule DaysInYear_pos)
  ultimately show "((y + 1, d), (y, d)) \<in> measure (\<lambda>(y, d). nat (d + 1 - DayFromYear (y + 1)))"
    by simp
qed

function year_down :: "int \<Rightarrow> int \<Rightarrow> int" where
  "year_down y d = (if d < DayFromYear y then year_down (y - 1) d else y)"
  by pat_completeness auto
termination
proof (relation "measure (\<lambda>(y, d). nat (DayFromYear y - d))")
  show "wf (measure (\<lambda>(y, d). nat (DayFromYear y - d)))" by simp
next
  fix y d :: int
  assume "d < DayFromYear y"
  moreover have "DayFromYear ((y - 1) + 1) = DayFromYear (y - 1) + DaysInYear (y - 1)"
    by (rule DayFromYear_Suc)
  moreover have "0 < DaysInYear (y - 1)" by (rule DaysInYear_pos)
  ultimately show "((y - 1, d), (y, d)) \<in> measure (\<lambda>(y, d). nat (DayFromYear y - d))"
    by simp
qed

declare year_up.simps [simp del] year_down.simps [simp del]

definition YearFromDay :: "int \<Rightarrow> int" where
  "YearFromDay d = (if 0 \<le> d then year_up 1970 d else year_down 1969 d)"

definition YearFromTime :: "int \<Rightarrow> int" where
  "YearFromTime t = YearFromDay (Day t)"

definition InLeapYear :: "int \<Rightarrow> int" where
  "InLeapYear t = (if DaysInYear (YearFromTime t) = 366 then 1 else 0)"

definition DayWithinYear :: "int \<Rightarrow> int" where
  "DayWithinYear t = Day t - DayFromYear (YearFromTime t)"

text \<open>The first day (within the year) of each month, and the table of \<open>MonthFromTime\<close>.\<close>

definition month_start :: "int \<Rightarrow> int \<Rightarrow> int" where
  "month_start leap m =
     (if m \<le> 0 then 0 else if m = 1 then 31 else if m = 2 then 59 + leap
      else if m = 3 then 90 + leap else if m = 4 then 120 + leap
      else if m = 5 then 151 + leap else if m = 6 then 181 + leap
      else if m = 7 then 212 + leap else if m = 8 then 243 + leap
      else if m = 9 then 273 + leap else if m = 10 then 304 + leap
      else 334 + leap)"

definition month_of_day :: "int \<Rightarrow> int \<Rightarrow> int" where
  "month_of_day leap dwy =
     (if dwy < 31 then 0 else if dwy < 59 + leap then 1 else if dwy < 90 + leap then 2
      else if dwy < 120 + leap then 3 else if dwy < 151 + leap then 4
      else if dwy < 181 + leap then 5 else if dwy < 212 + leap then 6
      else if dwy < 243 + leap then 7 else if dwy < 273 + leap then 8
      else if dwy < 304 + leap then 9 else if dwy < 334 + leap then 10 else 11)"

definition MonthFromTime :: "int \<Rightarrow> int" where
  "MonthFromTime t = month_of_day (InLeapYear t) (DayWithinYear t)"

definition DateFromTime :: "int \<Rightarrow> int" where
  "DateFromTime t =
     DayWithinYear t - month_start (InLeapYear t) (MonthFromTime t) + 1"

definition HourFromTime :: "int \<Rightarrow> int" where
  "HourFromTime t = (t div msPerHour) mod 24"

definition MinFromTime :: "int \<Rightarrow> int" where
  "MinFromTime t = (t div msPerMinute) mod 60"

definition SecFromTime :: "int \<Rightarrow> int" where
  "SecFromTime t = (t div msPerSecond) mod 60"

text \<open>\<^verbatim>\<open>Date.UTC(year, month, date, hours, minutes, seconds)\<close> for in-range arguments.\<close>

definition Date_UTC :: "int \<Rightarrow> int \<Rightarrow> int \<Rightarrow> int \<Rightarrow> int \<Rightarrow> int \<Rightarrow> int" where
  "Date_UTC y m d h mi s =
     (DayFromYear y + month_start (if DaysInYear y = 366 then 1 else 0) m + d - 1) * msPerDay
       + h * msPerHour + mi * msPerMinute + s * msPerSecond"

section \<open>Event building (server.ts)\<close>

definition months :: "string list" where
  "months = [''Jan'', ''Feb'', ''Mar'', ''Apr'', ''May'', ''Jun'',
             ''Jul'', ''Aug'', ''Sep'', ''Oct'', ''Nov'', ''Dec'']"

text \<open>An index outside the array reads \<^verbatim>\<open>undefined\<close>, which the template prints as such.\<close>

definition months_at :: "int \<Rightarrow> string" where
  "months_at m = (if 0 \<le> m \<and> m < 12 then months ! nat m else ''undefined'')"

definition pad :: "int \<Rightarrow> string" where
  "pad n = padStart2 (int_toString n)"

definition formatRequestTime :: "int \<Rightarrow> string" where
  "formatRequestTime date =
     pad (DateFromTime date) @ ''/'' @ months_at (MonthFromTime date) @ ''/''
       @ int_toString (YearFromTime date) @ '':''
       @ pad (HourFromTime date) @ '':'' @ pad (MinFromTime date) @ '':''
       @ pad (SecFromTime date) @ '' +0000''"

text \<open>
  What a handler takes from its environment when it builds an event: the clock
  (\<^verbatim>\<open>new Date()\<close>) and the two generated identifiers.
\<close>

record entropy =
  now :: int
  requestId :: string
  messageId :: string

definition buildRequestContext ::
  "GatewayConfig \<Rightarrow> Connection \<Rightarrow> string \<Rightarrow> EventType \<Rightarrow> DisconnectOptions option
     \<Rightarrow> entropy \<Rightarrow> AWSRequestContext" where
  "buildRequestContext cfg connection routeKey eventType options e =
     \<lparr> rc_routeKey = routeKey,
       rc_eventType = eventType,
       rc_extendedRequestId = requestId e,
       rc_requestTime = formatRequestTime (now e),
       rc_messageDirection = ''IN'',
       rc_stage = stage cfg,
       rc_connectedAt = connectedAt connection,
       rc_requestTimeEpoch = now e,
       rc_identity = \<lparr> id_sourceIp = sourceIp connection, id_userAgent = userAgent connection \<rparr>,
       rc_requestId = requestId e,
       rc_domainName = domainName cfg,
       rc_connectionId = conn_id connection,
       rc_apiId = apiId cfg,
       rc_messageId = (if eventType = MESSAGE then Some (messageId e) else None),
       rc_disconnectStatusCode =
         (if eventType = DISCONNECT then map_option disconnectStatusCode options else None),
       rc_disconnectReason =
         (if eventType = DISCONNECT then map_option disconnectReason options else None) \<rparr>"

definition buildMultiValueHeaders :: "string jsrecord \<Rightarrow> string list jsrecord" where
  "buildMultiValueHeaders hs = foldl (\<lambda>result (key, v). js_assign key [v] result) [] hs"

definition buildLambdaEvent ::
  "GatewayConfig \<Rightarrow> Connection \<Rightarrow> string \<Rightarrow> EventType \<Rightarrow> string option
     \<Rightarrow> DisconnectOptions option \<Rightarrow> entropy \<Rightarrow> AWSWebSocketEvent" where
  "buildLambdaEvent cfg connection routeKey eventType body options e =
     \<lparr> ev_requestContext = buildRequestContext cfg connection routeKey eventType options e,
       ev_headers = headers connection,
       ev_multiValueHeaders = buildMultiValueHeaders (headers connection),
       ev_queryStringParameters =
         (if length (queryParams connection) > 0 then Some (queryParams connection) else None),
       ev_body = body,
       ev_isBase64Encoded = False \<rparr>"

section \<open>Backend communication\<close>

definition getEventType :: "string \<Rightarrow> EventType" where
  "getEventType routeKey =
     (if routeKey = ''$connect'' then CONNECT
      else if routeKey = ''$disconnect'' then DISCONNECT else MESSAGE)"

text \<open>
  The argument of \<^verbatim>\<open>fetch\<close>: the URL, the method, the request headers and the body, which
  is \<^verbatim>\<open>JSON.stringify(event)\<close> (kept as the event it serialises).
\<close>

datatype http_body = JsonEvent AWSWebSocketEvent | RawText string

record request =
  req_url :: string
  req_method :: string
  req_headers :: "string jsrecord"
  req_body :: http_body

text \<open>
  What one call of \<open>callBackend\<close> does: it finds no integration and returns false
  (\<open>NoIntegration\<close>); or the integration it found is an inherited member without a
  \<^verbatim>\<open>uri\<close>, \<^verbatim>\<open>fetch(undefined)\<close> rejects and the \<^verbatim>\<open>catch\<close> returns false (\<open>FetchRejected\<close>);
  or it sends the request (\<open>Sent\<close>), and the result is \<^verbatim>\<open>response.ok\<close>, or false when the
  transport fails.
\<close>

datatype dispatch = NoIntegration | FetchRejected | Sent request

definition callBackend ::
  "GatewayConfig \<Rightarrow> string \<Rightarrow> Connection \<Rightarrow> string option \<Rightarrow> DisconnectOptions option
     \<Rightarrow> entropy \<Rightarrow> dispatch" where
  "callBackend cfg routeKey connection body disconnectOptions e =
     (let eventType = getEventType routeKey;
          integration = js_or (js_get (routes cfg) routeKey) (js_get (routes cfg) ''$default'')
      in case integration of
           Undefined \<Rightarrow> NoIntegration
         | Inherited \<Rightarrow> FetchRejected
         | Own i \<Rightarrow>
             Sent \<lparr> req_url = uri i,
                    req_method = ''POST'',
                    req_headers = [(''Content-Type'', ''application/json'')],
                    req_body = JsonEvent
                      (buildLambdaEvent cfg connection routeKey eventType body
                         disconnectOptions e) \<rparr>)"

text \<open>The boolean \<open>callBackend\<close> resolves to, given what the backend answered.\<close>

fun callBackend_result :: "dispatch \<Rightarrow> bool \<Rightarrow> bool" where
  "callBackend_result (Sent r) response_ok = response_ok"
| "callBackend_result d response_ok = False"

fun sent_request :: "dispatch \<Rightarrow> request option" where
  "sent_request (Sent r) = Some r"
| "sent_request d = None"

section \<open>Route selection\<close>

datatype json =
    JNull | JBool bool | JNumber rat | JString string
  | JArray "json list" | JObject "(string \<times> json) list"

text \<open>
  The own member \<^verbatim>\<open>value[key]\<close> of a parsed JSON value that passes the test
  \<^verbatim>\<open>value && typeof value === 'object'\<close>; arrays pass it as well as objects, with their
  indices and \<^verbatim>\<open>length\<close> as members. An inherited member (a method, a prototype object) also
  answers \<^verbatim>\<open>key in value\<close>, but it is never a string and no string is reachable from it, so
  the selector returns \<^verbatim>\<open>$default\<close> for it as it does for an absent one: both are \<open>None\<close>.
\<close>

fun member :: "json \<Rightarrow> string \<Rightarrow> json option" where
  "member (JObject ms) key = map_of ms key"
| "member (JArray xs) key =
     (if key = ''length'' then Some (JNumber (of_nat (length xs)))
      else (case array_index key of
              Some i \<Rightarrow> if i < length xs then Some (xs ! i) else None
            | None \<Rightarrow> None))"
| "member v key = None"

fun walk :: "string list \<Rightarrow> json \<Rightarrow> json option" where
  "walk [] v = Some v"
| "walk (key # path) v =
     (case member v key of None \<Rightarrow> None | Some v' \<Rightarrow> walk path v')"

text \<open>
  The match of \<^verbatim>\<open>/^\$request\.body\.(.+)$/\<close>: the capture is everything after the prefix,
  non-empty and free of line terminators (LF, CR, U+2028, U+2029).
\<close>

fun has_line_terminator :: "string \<Rightarrow> bool" where
  "has_line_terminator [] = False"
| "has_line_terminator (c # cs) =
     (c = CHR 0x0A \<or> c = CHR 0x0D
      \<or> take 3 (c # cs) = [CHR 0xE2, CHR 0x80, CHR 0xA8]
      \<or> take 3 (c # cs) = [CHR 0xE2, CHR 0x80, CHR 0xA9]
      \<or> has_line_terminator cs)"

definition match_request_body :: "string \<Rightarrow> string option" where
  "match_request_body expr =
     (let prefix = ''$request.body.''; rest = drop (length prefix) expr
      in if take (length prefix) expr = prefix \<and> rest \<noteq> [] \<and> \<not> has_line_terminator rest
         then Some rest else None)"

text \<open>
  \<open>selectRoute\<close>. \<^verbatim>\<open>JSON.parse\<close> is the platform's and is a parameter: \<open>None\<close> when it
  throws. An absent or empty expression is falsy.
\<close>

definition selectRoute :: "(string \<Rightarrow> json option) \<Rightarrow> GatewayConfig \<Rightarrow> string \<Rightarrow> string" where
  "selectRoute JSON_parse cfg message =
     (case routeSelectionExpression cfg of
        None \<Rightarrow> ''$default''
      | Some expr \<Rightarrow>
          if expr = [] then ''$default''
          else (case JSON_parse message of
                  None \<Rightarrow> ''$default''
                | Some parsed \<Rightarrow>
                    (case match_request_body expr of
                       None \<Rightarrow> ''$default''
                     | Some rest \<Rightarrow>
                         (case walk (split_dot rest) parsed of
                            Some (JString v) \<Rightarrow>
                              if truthy (js_get (routes cfg) v) then v else ''$default''
                          | _ \<Rightarrow> ''$default''))))"

section \<open>Sockets, timers and the state of the gateway\<close>

datatype readyState = CONNECTING | OPEN | CLOSING | CLOSED

text \<open>
  A WebSocket of the \<^verbatim>\<open>ws\<close> library, as far as the gateway uses it: its state, the frames
  written with \<^verbatim>\<open>send\<close>, and the code and reason of the \<^verbatim>\<open>close\<close> call that started its
  closing handshake. \<^verbatim>\<open>close\<close> on a socket that is not open does nothing.
\<close>

record WebSocket =
  readyState :: readyState
  sent :: "string list"
  close_call :: "(int \<times> string) option"

definition ws_close :: "int \<Rightarrow> string \<Rightarrow> WebSocket \<Rightarrow> WebSocket" where
  "ws_close code reason sock =
     (if readyState sock = OPEN
      then sock\<lparr> readyState := CLOSING, close_call := Some (code, reason) \<rparr>
      else sock)"

definition ws_send :: "string \<Rightarrow> WebSocket \<Rightarrow> WebSocket" where
  "ws_send data sock = sock\<lparr> sent := sent sock @ [data] \<rparr>"

datatype timer_kind = Idle | Hard

datatype timer_status = Pending | Cleared | Fired

text \<open>
  A timer made by \<^verbatim>\<open>setTimeout\<close>: the connection id its callback closes over, which of the
  two callbacks it runs, the delay in milliseconds it runs after, and whether it is still
  pending.
\<close>

record timer =
  timer_connectionId :: string
  timer_kind :: timer_kind
  timer_delay :: int
  timer_status :: timer_status

text \<open>
  The gateway. \<open>connections\<close> and \<open>timeoutTimers\<close> are the two \<^verbatim>\<open>Map\<close>s of the class, in
  insertion order; a \<^verbatim>\<open>Map\<close> holds references, so \<open>connections\<close> maps an id to the handle
  of a connection object in \<open>heap\<close> (the object the handlers of that socket close over, stored
  under the handle of its socket), and \<open>timeoutTimers\<close> maps a key to the index of a timer in
  \<open>timers\<close>. \<open>outbox\<close> lists what every call of \<open>callBackend\<close> did, in order.
\<close>

record gateway =
  config :: GatewayConfig
  connections :: "(string \<times> nat) list"
  heap :: "(nat \<times> Connection) list"
  sockets :: "(nat \<times> WebSocket) list"
  timeoutTimers :: "(string \<times> nat) list"
  timers :: "timer list"
  outbox :: "dispatch list"

definition new_gateway :: "GatewayConfig \<Rightarrow> gateway" where
  "new_gateway cfg =
     \<lparr> config =
         (if domainName cfg = [] then cfg\<lparr> domainName := ''localhost:'' @ nat_toString (port cfg) \<rparr>
          else cfg),
       connections = [], heap = [], sockets = [], timeoutTimers = [], timers = [],
       outbox = [] \<rparr>"

definition socket_close :: "nat \<Rightarrow> int \<Rightarrow> string \<Rightarrow> gateway \<Rightarrow> gateway" where
  "socket_close w code reason g =
     (case map_of (sockets g) w of
        None \<Rightarrow> g
      | Some sock \<Rightarrow> g\<lparr> sockets := AList.update w (ws_close code reason sock) (sockets g) \<rparr>)"

definition socket_send :: "nat \<Rightarrow> string \<Rightarrow> gateway \<Rightarrow> gateway" where
  "socket_send w data g =
     (case map_of (sockets g) w of
        None \<Rightarrow> g
      | Some sock \<Rightarrow> g\<lparr> sockets := AList.update w (ws_send data sock) (sockets g) \<rparr>)"

subsection \<open>Timeout management\<close>

text \<open>
  \<^verbatim>\<open>setTimeout\<close> of Node.js: a delay that is not between 1 and \<open>2\<^sup>3\<^sup>1 - 1\<close> milliseconds is
  replaced by 1 millisecond.
\<close>

definition TIMEOUT_MAX :: int where
  "TIMEOUT_MAX = 2147483647"

definition timeout_after :: "int \<Rightarrow> int" where
  "timeout_after delay = (if 1 \<le> delay \<and> delay \<le> TIMEOUT_MAX then delay else 1)"

definition setTimeout :: "string \<Rightarrow> timer_kind \<Rightarrow> int \<Rightarrow> gateway \<Rightarrow> nat \<times> gateway" where
  "setTimeout connectionId k delay g =
     (length (timers g),
      g\<lparr> timers := timers g @
          [\<lparr> timer_connectionId = connectionId, timer_kind = k,
             timer_delay = timeout_after delay, timer_status = Pending \<rparr>] \<rparr>)"

definition clearTimeout :: "nat \<Rightarrow> gateway \<Rightarrow> gateway" where
  "clearTimeout h g =
     (if h < length (timers g) \<and> timer_status (timers g ! h) = Pending
      then g\<lparr> timers := (timers g)[h := (timers g ! h)\<lparr> timer_status := Cleared \<rparr>] \<rparr>
      else g)"

definition clear_if_set :: "nat option \<Rightarrow> gateway \<Rightarrow> gateway" where
  "clear_if_set existingTimer g =
     (case existingTimer of None \<Rightarrow> g | Some h \<Rightarrow> clearTimeout h g)"

definition resetIdleTimeout :: "string \<Rightarrow> gateway \<Rightarrow> gateway" where
  "resetIdleTimeout connectionId g =
     (let idleKey = connectionId @ '':idle'';
          g1 = clear_if_set (map_of (timeoutTimers g) idleKey) g;
          (idleTimer, g2) = setTimeout connectionId Idle (idleTimeout (config g) * 1000) g1
      in g2\<lparr> timeoutTimers := AList.update idleKey idleTimer (timeoutTimers g2) \<rparr>)"

definition setupTimeouts :: "string \<Rightarrow> gateway \<Rightarrow> gateway" where
  "setupTimeouts connectionId g =
     (let g1 = resetIdleTimeout connectionId g;
          (hardTimer, g2) = setTimeout connectionId Hard (hardTimeout (config g) * 1000) g1
      in g2\<lparr> timeoutTimers :=
               AList.update (connectionId @ '':hard'') hardTimer (timeoutTimers g2) \<rparr>)"

definition clearTimeouts :: "string \<Rightarrow> gateway \<Rightarrow> gateway" where
  "clearTimeouts connectionId g =
     (let idleTimer = map_of (timeoutTimers g) (connectionId @ '':idle'');
          hardTimer = map_of (timeoutTimers g) (connectionId @ '':hard'');
          g1 = clear_if_set idleTimer g;
          g2 = clear_if_set hardTimer g1
      in g2\<lparr> timeoutTimers :=
               AList.delete (connectionId @ '':hard'')
                 (AList.delete (connectionId @ '':idle'') (timeoutTimers g2)) \<rparr>)"

text \<open>
  A pending timer fires: its callback looks the connection up in the live set and, if it
  is there, closes its socket with code 1001.
\<close>

definition timer_fired :: "nat \<Rightarrow> gateway \<Rightarrow> gateway" where
  "timer_fired h g =
     (if h < length (timers g) \<and> timer_status (timers g ! h) = Pending
      then
        (let t = timers g ! h;
             g1 = g\<lparr> timers := (timers g)[h := t\<lparr> timer_status := Fired \<rparr>] \<rparr>
         in case map_of (connections g1) (timer_connectionId t) of
              None \<Rightarrow> g1
            | Some w \<Rightarrow>
                socket_close w 1001
                  (if timer_kind t = Idle then ''Idle timeout'' else ''Hard timeout'') g1)
      else g)"

subsection \<open>WebSocket connection handling\<close>

text \<open>
  What \<open>handleConnection\<close> reads from the upgrade request: the pairs of
  \<^verbatim>\<open>url.searchParams\<close> in order, the entries of \<^verbatim>\<open>req.headers\<close> (a string, a non-empty
  array or undefined each), and the remote address.
\<close>

datatype header_value = HString string | HArray string "string list" | HUndefined

record upgrade_request =
  searchParams :: "(string \<times> string) list"
  raw_headers :: "(string \<times> header_value) list"
  remoteAddress :: "string option"

definition parse_headers :: "(string \<times> header_value) list \<Rightarrow> string jsrecord" where
  "parse_headers hs =
     foldl (\<lambda>result (key, v).
              case v of
                HString s \<Rightarrow> js_assign (toLowerCase key) s result
              | HArray x xs \<Rightarrow> js_assign (toLowerCase key) x result
              | HUndefined \<Rightarrow> result) [] hs"

definition parse_query :: "(string \<times> string) list \<Rightarrow> string jsrecord" where
  "parse_query ps = foldl (\<lambda>result (key, v). js_assign key v result) [] ps"

text \<open>
  \<open>handleConnection\<close>, up to the registration of the handlers. \<open>w\<close> is the handle of the
  accepted socket, \<open>connectionId\<close> what \<open>generateConnectionId\<close> returned. The callback of the
  \<^verbatim>\<open>$connect\<close> promise and the three socket handlers are the next four definitions; they
  run later, when the environment delivers their event.
\<close>

definition handleConnection ::
  "nat \<Rightarrow> upgrade_request \<Rightarrow> string \<Rightarrow> entropy \<Rightarrow> gateway \<Rightarrow> gateway" where
  "handleConnection w req connectionId e g =
     (let connection =
            \<lparr> conn_id = connectionId, ws = w, connectedAt = now e, lastActivityAt = now e,
              queryParams = parse_query (searchParams req),
              headers = parse_headers (raw_headers req),
              sourceIp = replace_first ''::ffff:'' []
                (case remoteAddress req of
                   None \<Rightarrow> ''127.0.0.1''
                 | Some a \<Rightarrow> if a = [] then ''127.0.0.1'' else a),
              userAgent =
                (case map_of (raw_headers req) ''user-agent'' of
                   Some (HString s) \<Rightarrow> s
                 | _ \<Rightarrow> []) \<rparr>;
          g1 = g\<lparr> sockets :=
                   AList.update w \<lparr> readyState = OPEN, sent = [], close_call = None \<rparr> (sockets g),
                 heap := AList.update w connection (heap g),
                 connections := AList.update connectionId w (connections g) \<rparr>;
          g2 = setupTimeouts connectionId g1
      in g2\<lparr> outbox := outbox g2 @ [callBackend (config g) ''$connect'' connection None None e] \<rparr>)"

text \<open>The callback of the \<^verbatim>\<open>$connect\<close> promise, with the boolean it resolved to.\<close>

definition connect_resolved :: "nat \<Rightarrow> bool \<Rightarrow> gateway \<Rightarrow> gateway" where
  "connect_resolved w success g =
     (if \<not> success then socket_close w 1011 ''Backend connect failed'' g else g)"

text \<open>The handler of \<^verbatim>\<open>message\<close> of socket \<open>w\<close>.\<close>

definition on_message ::
  "(string \<Rightarrow> json option) \<Rightarrow> nat \<Rightarrow> string \<Rightarrow> entropy \<Rightarrow> gateway \<Rightarrow> gateway" where
  "on_message JSON_parse w message e g =
     (case map_of (heap g) w of
        None \<Rightarrow> g
      | Some c \<Rightarrow>
          (let connection = c\<lparr> lastActivityAt := now e \<rparr>;
               g1 = g\<lparr> heap := AList.update w connection (heap g) \<rparr>;
               g2 = resetIdleTimeout (conn_id connection) g1;
               routeKey = selectRoute JSON_parse (config g) message
           in g2\<lparr> outbox := outbox g2 @
                     [callBackend (config g) routeKey connection (Some message) None e] \<rparr>))"

text \<open>
  The handler of \<^verbatim>\<open>close\<close> of socket \<open>w\<close>; the library has set the socket to \<open>CLOSED\<close> when
  it emits the event.
\<close>

definition on_close :: "nat \<Rightarrow> int \<Rightarrow> string \<Rightarrow> entropy \<Rightarrow> gateway \<Rightarrow> gateway" where
  "on_close w code reason e g =
     (case map_of (heap g) w of
        None \<Rightarrow> g
      | Some connection \<Rightarrow>
          (let g0 = (case map_of (sockets g) w of
                       None \<Rightarrow> g
                     | Some sock \<Rightarrow>
                         g\<lparr> sockets := AList.update w (sock\<lparr> readyState := CLOSED \<rparr>) (sockets g) \<rparr>);
               g1 = g0\<lparr> outbox := outbox g0 @
                      [callBackend (config g) ''$disconnect'' connection None
                         (Some \<lparr> disconnectStatusCode = code, disconnectReason = reason \<rparr>) e] \<rparr>;
               g2 = clearTimeouts (conn_id connection) g1
           in g2\<lparr> connections := AList.delete (conn_id connection) (connections g2) \<rparr>))"

subsection \<open>Server lifecycle\<close>

definition stop :: "gateway \<Rightarrow> gateway" where
  "stop g =
     (let g1 = foldl (\<lambda>acc (cid, w). socket_close w 1001 ''Server shutting down'' acc) g
                 (connections g);
          g2 = g1\<lparr> connections := [] \<rparr>;
          g3 = foldl (\<lambda>acc (k, h). clearTimeout h acc) g2 (timeoutTimers g2)
      in g3\<lparr> timeoutTimers := [] \<rparr>)"

section \<open>HTTP request handling (management API)\<close>

subsection \<open>\<^verbatim>\<open>decodeURIComponent\<close>\<close>

text \<open>
  The ECMAScript \<open>Decode\<close> operation with an empty reserved set. A \<^verbatim>\<open>%\<close> must be followed by
  two hexadecimal digits; an octet of 128 or more must start a well-formed UTF-8 sequence
  whose remaining octets are escaped too. Anything else throws a \<^verbatim>\<open>URIError\<close>.
\<close>

datatype js_error = URIError

definition hex_val :: "char \<Rightarrow> nat option" where
  "hex_val c =
     (let n = (of_char c :: nat)
      in if 48 \<le> n \<and> n \<le> 57 then Some (n - 48)
         else if 65 \<le> n \<and> n \<le> 70 then Some (n - 55)
         else if 97 \<le> n \<and> n \<le> 102 then Some (n - 87)
         else None)"

text \<open>The octet of an escape \<^verbatim>\<open>%XX\<close> at the front of a string.\<close>

fun escaped_octet :: "string \<Rightarrow> nat option" where
  "escaped_octet (p # h1 # h2 # rest) =
     (if p = CHR ''%''
      then (case (hex_val h1, hex_val h2) of
              (Some a, Some b) \<Rightarrow> Some (16 * a + b)
            | _ \<Rightarrow> None)
      else None)"
| "escaped_octet s = None"

text \<open>The \<open>n\<close> continuation octets (\<^verbatim>\<open>10xxxxxx\<close>) escaped at the front of a string.\<close>

fun continuation_octets :: "nat \<Rightarrow> string \<Rightarrow> nat list option" where
  "continuation_octets 0 s = Some []"
| "continuation_octets (Suc n) s =
     (case escaped_octet s of
        None \<Rightarrow> None
      | Some b \<Rightarrow>
          if 128 \<le> b \<and> b < 192
          then map_option (Cons b) (continuation_octets n (drop 3 s))
          else None)"

text \<open>The length a leading octet announces; 0 for an octet that cannot lead.\<close>

definition utf8_length :: "nat \<Rightarrow> nat" where
  "utf8_length b =
     (if 194 \<le> b \<and> b < 224 then 2 else if 224 \<le> b \<and> b < 240 then 3
      else if 240 \<le> b \<and> b < 245 then 4 else 0)"

text \<open>No overlong form, no surrogate, nothing above U+10FFFF.\<close>

definition utf8_second_ok :: "nat \<Rightarrow> nat list \<Rightarrow> bool" where
  "utf8_second_ok b cont =
     (case cont of
        [] \<Rightarrow> False
      | c # cs \<Rightarrow>
          if b = 224 then 160 \<le> c else if b = 237 then c < 160
          else if b = 240 then 144 \<le> c else if b = 244 then c < 144 else True)"

fun decodeURIComponent :: "string \<Rightarrow> js_error + string" where
  "decodeURIComponent [] = Inr []"
| "decodeURIComponent (c # cs) =
     (if c \<noteq> CHR ''%'' then map_sum id (Cons c) (decodeURIComponent cs)
      else
        (case escaped_octet (c # cs) of
           None \<Rightarrow> Inl URIError
         | Some b \<Rightarrow>
             if b < 128 then map_sum id (Cons (char_of b)) (decodeURIComponent (drop 2 cs))
             else
               (let n = utf8_length b in
                if n = 0 then Inl URIError
                else
                  (case continuation_octets (n - 1) (drop 2 cs) of
                     None \<Rightarrow> Inl URIError
                   | Some cont \<Rightarrow>
                       if utf8_second_ok b cont
                       then map_sum id (\<lambda>r. map char_of (b # cont) @ r)
                              (decodeURIComponent (drop (2 + 3 * (n - 1)) cs))
                       else Inl URIError))))"

subsection \<open>\<^verbatim>\<open>Date.prototype.toISOString\<close>\<close>

definition padStart :: "nat \<Rightarrow> string \<Rightarrow> string" where
  "padStart n s = replicate (n - length s) CHR ''0'' @ s"

definition toISOString :: "int \<Rightarrow> string" where
  "toISOString t =
     (let y = YearFromTime t
      in (if 0 \<le> y \<and> y \<le> 9999 then padStart 4 (nat_toString (nat y))
          else (if y < 0 then ''-'' else ''+'') @ padStart 6 (nat_toString (nat \<bar>y\<bar>)))
         @ ''-'' @ padStart 2 (nat_toString (nat (MonthFromTime t + 1)))
         @ ''-'' @ padStart 2 (nat_toString (nat (DateFromTime t)))
         @ ''T'' @ padStart 2 (nat_toString (nat (HourFromTime t)))
         @ '':'' @ padStart 2 (nat_toString (nat (MinFromTime t)))
         @ '':'' @ padStart 2 (nat_toString (nat (SecFromTime t)))
         @ ''.'' @ padStart 3 (nat_toString (nat (t mod 1000))) @ ''Z'')"

subsection \<open>The handlers\<close>

text \<open>
  An HTTP request as the handler sees it: the method, the \<^verbatim>\<open>pathname\<close> of the parsed URL
  and the body, and the response it writes. A response body is the value given to
  \<^verbatim>\<open>JSON.stringify\<close>, or nothing.
\<close>

record http_request =
  http_method :: string
  http_pathname :: string
  http_body :: string

record response =
  res_status :: nat
  res_headers :: "string jsrecord"
  res_body :: "json option"

definition json_response :: "nat \<Rightarrow> json \<Rightarrow> response" where
  "json_response code v =
     \<lparr> res_status = code, res_headers = [(''Content-Type'', ''application/json'')],
       res_body = Some v \<rparr>"

definition empty_response :: "nat \<Rightarrow> response" where
  "empty_response code = \<lparr> res_status = code, res_headers = [], res_body = None \<rparr>"

definition gone :: "string \<Rightarrow> response" where
  "gone connectionId =
     json_response 410
       (JObject [(''message'', JString ''Gone''), (''connectionId'', JString connectionId)])"

text \<open>\<^verbatim>\<open>this.connections.get(connectionId)\<close>: the connection object, if the id is live.\<close>

definition get_connection :: "gateway \<Rightarrow> string \<Rightarrow> Connection option" where
  "get_connection g connectionId =
     (case map_of (connections g) connectionId of
        None \<Rightarrow> None
      | Some w \<Rightarrow> map_of (heap g) w)"

definition socket_open :: "gateway \<Rightarrow> Connection \<Rightarrow> bool" where
  "socket_open g connection =
     (case map_of (sockets g) (ws connection) of
        None \<Rightarrow> False
      | Some sock \<Rightarrow> readyState sock = OPEN)"

text \<open>
  \<open>handleManagementApi\<close>. For a POST the body has arrived in full (the \<^verbatim>\<open>end\<close> event); the
  connection was looked up when the request came in.
\<close>

definition handleManagementApi ::
  "string \<Rightarrow> string \<Rightarrow> string \<Rightarrow> entropy \<Rightarrow> gateway \<Rightarrow> response \<times> gateway" where
  "handleManagementApi method connectionId body e g =
     (let connection = get_connection g connectionId in
      if method = ''GET'' then
        (case connection of
           Some c \<Rightarrow>
             (json_response 200
                (JObject [(''connectionId'', JString connectionId),
                          (''connectedAt'', JString (toISOString (connectedAt c))),
                          (''lastActiveAt'', JString (toISOString (lastActivityAt c)))]), g)
         | None \<Rightarrow> (gone connectionId, g))
      else if method = ''DELETE'' then
        (case connection of
           Some c \<Rightarrow>
             if socket_open g c
             then (empty_response 204, socket_close (ws c) 1000 ''Closed by management API'' g)
             else (gone connectionId, g)
         | None \<Rightarrow> (gone connectionId, g))
      else if method = ''POST'' then
        (case connection of
           Some c \<Rightarrow>
             if socket_open g c
             then (empty_response 200,
                   (socket_send (ws c) body g)
                     \<lparr> heap := AList.update (ws c) (c\<lparr> lastActivityAt := now e \<rparr>) (heap g) \<rparr>)
             else (gone connectionId, g)
         | None \<Rightarrow> (gone connectionId, g))
      else (json_response 405 (JObject [(''message'', JString ''Method Not Allowed'')]), g))"

text \<open>The capture of \<^verbatim>\<open>/^\/@connections\/(.+)$/\<close> on the pathname.\<close>

definition match_connections :: "string \<Rightarrow> string option" where
  "match_connections pathname =
     (let prefix = ''/@connections/''; rest = drop (length prefix) pathname
      in if take (length prefix) pathname = prefix \<and> rest \<noteq> [] \<and> \<not> has_line_terminator rest
         then Some rest else None)"

text \<open>
  \<open>handleHttpRequest\<close>: the response and the new state, or the exception that leaves the
  handler. \<open>uptime\<close> is what \<^verbatim>\<open>process.uptime()\<close> returns.
\<close>

definition handleHttpRequest ::
  "http_request \<Rightarrow> entropy \<Rightarrow> rat \<Rightarrow> gateway \<Rightarrow> js_error + (response \<times> gateway)" where
  "handleHttpRequest req e uptime g =
     (let method = (if http_method req = [] then ''GET'' else http_method req) in
      if method = ''GET'' \<and> http_pathname req = ''/health'' then
        Inr (json_response 200
               (JObject [(''status'', JString ''ok''),
                         (''connections'', JNumber (of_nat (length (connections g)))),
                         (''uptime'', JNumber uptime)]), g)
      else
        (case match_connections (http_pathname req) of
           Some m \<Rightarrow>
             (case decodeURIComponent m of
                Inl err \<Rightarrow> Inl err
              | Inr connectionId \<Rightarrow>
                  Inr (handleManagementApi method connectionId (http_body req) e g))
         | None \<Rightarrow> Inr (json_response 404 (JObject [(''message'', JString ''Not Found'')]), g)))"

section \<open>Runs of the gateway\<close>

text \<open>
  The events the environment delivers: an accepted upgrade, the resolution of a
  \<^verbatim>\<open>$connect\<close> promise, a frame, a socket's \<^verbatim>\<open>close\<close>, a timer that fires, an HTTP request, and
  the call of \<open>stop\<close>. A run handles them one after the other, each to completion.
\<close>

datatype event =
    Upgrade nat upgrade_request string entropy
  | ConnectResolved nat bool
  | Frame nat string entropy
  | SocketClosed nat int string entropy
  | TimerFired nat
  | Http http_request entropy rat
  | Stop

fun step :: "(string \<Rightarrow> json option) \<Rightarrow> gateway \<Rightarrow> event \<Rightarrow> gateway" where
  "step P g (Upgrade w req connectionId e) = handleConnection w req connectionId e g"
| "step P g (ConnectResolved w success) = connect_resolved w success g"
| "step P g (Frame w message e) = on_message P w message e g"
| "step P g (SocketClosed w code reason e) = on_close w code reason e g"
| "step P g (TimerFired h) = timer_fired h g"
| "step P g (Http req e uptime) =
     (case handleHttpRequest req e uptime g of Inl err \<Rightarrow> g | Inr (res, g') \<Rightarrow> g')"
| "step P g Stop = stop g"

definition run :: "(string \<Rightarrow> json option) \<Rightarrow> gateway \<Rightarrow> event list \<Rightarrow> gateway" where
  "run P g evs = foldl (step P) g evs"

section \<open>Concrete inputs\<close>

text \<open>A connection, the reading of the environment and an upgrade request used below.\<close>

definition conn0 :: Connection where
  "conn0 =
     \<lparr> conn_id = ''AbCdEfGhIjKl='', ws = 0, connectedAt = 1700000000000,
       lastActivityAt = 1700000000000, queryParams = [(''token'', ''abc'')],
       headers = [(''host'', ''localhost:3001'')], sourceIp = ''127.0.0.1'', userAgent = [] \<rparr>"

definition e0 :: entropy where
  "e0 = \<lparr> now = 1700000000000, requestId = ''0f8fad5b-d9cb-469f-a165-70867728950e'',
          messageId = ''MnOpQrStUvWx='' \<rparr>"

definition req0 :: upgrade_request where
  "req0 =
     \<lparr> searchParams = [(''token'', ''abc'')],
       raw_headers = [(''host'', HString ''localhost:3001'')],
       remoteAddress = Some ''::ffff:127.0.0.1'' \<rparr>"

text \<open>A table that registers the \<^verbatim>\<open>$default\<close> integration only.\<close>

definition cfg_only_default :: GatewayConfig where
  "cfg_only_default =
     DEFAULT_CONFIG\<lparr> routes := [(''$default'', \<lparr> uri = ''http://localhost:8080/ws/default'' \<rparr>)] \<rparr>"

section \<open>Integration lookup of the dispatcher\<close>

text \<open>
  Claim C3, as stated, fails: with a table that has no \<^verbatim>\<open>$connect\<close> key but has
  \<^verbatim>\<open>$default\<close>, the dispatch of \<^verbatim>\<open>$connect\<close> is not refused; it is sent to the \<^verbatim>\<open>$default\<close>
  integration.
\<close>

theorem connect_falls_back_to_default:
  "map_of (routes cfg_only_default) ''$connect'' = None \<and>
   map_option req_url (sent_request (callBackend cfg_only_default ''$connect'' conn0 None None e0))
     = Some ''http://localhost:8080/ws/default''"
  by (simp add: cfg_only_default_def callBackend_def js_get_def object_prototype_keys_def)

text \<open>
  Claim C3, amended: for every dispatch of a \<^verbatim>\<open>$connect\<close> or \<^verbatim>\<open>$disconnect\<close> event the
  integration is the one registered under the exact route key when the table has it, and
  the \<^verbatim>\<open>$default\<close> integration otherwise, as for message routing; the dispatch fails without
  being sent anywhere exactly when the table has neither the route key nor \<^verbatim>\<open>$default\<close>.
\<close>

theorem lifecycle_dispatch_lookup:
  assumes "routeKey = ''$connect'' \<or> routeKey = ''$disconnect''"
  shows "map_option req_url (sent_request (callBackend cfg routeKey c body opts e)) =
           (case map_of (routes cfg) routeKey of
              Some i \<Rightarrow> Some (uri i)
            | None \<Rightarrow> map_option uri (map_of (routes cfg) ''$default''))
         \<and> (callBackend cfg routeKey c body opts e = NoIntegration) =
             (map_of (routes cfg) routeKey = None \<and> map_of (routes cfg) ''$default'' = None)"
proof -
  have k: "routeKey \<notin> set object_prototype_keys"
    using assms by (auto simp: object_prototype_keys_def)
  have d: "''$default'' \<notin> set object_prototype_keys"
    by (simp add: object_prototype_keys_def)
  show ?thesis
    using k d by (simp add: callBackend_def js_get_def Let_def split: option.splits)
qed

theorem lifecycle_dispatch_lookup_witness:
  "map_option req_url
     (sent_request (callBackend cfg_only_default ''$disconnect'' conn0 None None e0))
     = Some ''http://localhost:8080/ws/default''
   \<and> callBackend cfg_only_default ''$disconnect'' conn0 None None e0 \<noteq> NoIntegration
   \<and> callBackend (DEFAULT_CONFIG\<lparr> routes := [] \<rparr>) ''$disconnect'' conn0 None None e0
       = NoIntegration"
  using lifecycle_dispatch_lookup [of "''$disconnect''" cfg_only_default conn0 None None e0]
    lifecycle_dispatch_lookup [of "''$disconnect''" "DEFAULT_CONFIG\<lparr> routes := [] \<rparr>"
      conn0 None None e0]
  by (simp add: cfg_only_default_def)

section \<open>Malformed percent-encoding in a management path\<close>

text \<open>
  Claim C10: there is a management request path whose id segment is malformed
  percent-encoding, \<^verbatim>\<open>/@connections/%\<close>, for which the URL-decoding step of the HTTP request
  handler throws a \<^verbatim>\<open>URIError\<close>: whatever the method, the body and the state of the gateway,
  the handler leaves with the exception and writes no response (no 200, 204, 404, 405
  or 410).
\<close>

theorem malformed_id_throws:
  "handleHttpRequest \<lparr> http_method = m, http_pathname = ''/@connections/%'', http_body = b \<rparr>
     e uptime g = Inl URIError"
  by (simp add: handleHttpRequest_def match_connections_def Let_def)

section \<open>What the primitive operations leave unchanged\<close>

lemma clearTimeout_fields [simp]:
  "outbox (clearTimeout h g) = outbox g" "connections (clearTimeout h g) = connections g"
  "heap (clearTimeout h g) = heap g" "sockets (clearTimeout h g) = sockets g"
  "timeoutTimers (clearTimeout h g) = timeoutTimers g" "config (clearTimeout h g) = config g"
  by (simp_all add: clearTimeout_def)

lemma clear_if_set_fields [simp]:
  "outbox (clear_if_set x g) = outbox g" "connections (clear_if_set x g) = connections g"
  "heap (clear_if_set x g) = heap g" "sockets (clear_if_set x g) = sockets g"
  "timeoutTimers (clear_if_set x g) = timeoutTimers g" "config (clear_if_set x g) = config g"
  by (simp_all add: clear_if_set_def split: option.splits)

lemma socket_close_fields [simp]:
  "outbox (socket_close w code reason g) = outbox g"
  "connections (socket_close w code reason g) = connections g"
  "heap (socket_close w code reason g) = heap g"
  "timers (socket_close w code reason g) = timers g"
  "timeoutTimers (socket_close w code reason g) = timeoutTimers g"
  "config (socket_close w code reason g) = config g"
  by (simp_all add: socket_close_def split: option.splits)

lemma socket_send_fields [simp]:
  "outbox (socket_send w d g) = outbox g"
  "connections (socket_send w d g) = connections g"
  "heap (socket_send w d g) = heap g"
  "timers (socket_send w d g) = timers g"
  "timeoutTimers (socket_send w d g) = timeoutTimers g"
  "config (socket_send w d g) = config g"
  by (simp_all add: socket_send_def split: option.splits)

lemma resetIdleTimeout_fields [simp]:
  "outbox (resetIdleTimeout cid g) = outbox g"
  "connections (resetIdleTimeout cid g) = connections g"
  "heap (resetIdleTimeout cid g) = heap g"
  "sockets (resetIdleTimeout cid g) = sockets g"
  "config (resetIdleTimeout cid g) = config g"
  by (simp_all add: resetIdleTimeout_def setTimeout_def Let_def)

lemma setupTimeouts_fields [simp]:
  "outbox (setupTimeouts cid g) = outbox g"
  "connections (setupTimeouts cid g) = connections g"
  "heap (setupTimeouts cid g) = heap g"
  "sockets (setupTimeouts cid g) = sockets g"
  "config (setupTimeouts cid g) = config g"
  by (simp_all add: setupTimeouts_def setTimeout_def Let_def)

lemma clearTimeouts_fields [simp]:
  "outbox (clearTimeouts cid g) = outbox g"
  "connections (clearTimeouts cid g) = connections g"
  "heap (clearTimeouts cid g) = heap g"
  "sockets (clearTimeouts cid g) = sockets g"
  "config (clearTimeouts cid g) = config g"
  by (simp_all add: clearTimeouts_def Let_def)

lemma foldl_socket_close_fields [simp]:
  "outbox (foldl (\<lambda>acc (cid, w). socket_close w code reason acc) g cs) = outbox g"
  "timers (foldl (\<lambda>acc (cid, w). socket_close w code reason acc) g cs) = timers g"
  "timeoutTimers (foldl (\<lambda>acc (cid, w). socket_close w code reason acc) g cs) = timeoutTimers g"
  "config (foldl (\<lambda>acc (cid, w). socket_close w code reason acc) g cs) = config g"
  "heap (foldl (\<lambda>acc (cid, w). socket_close w code reason acc) g cs) = heap g"
  by (induction cs arbitrary: g; simp add: case_prod_beta)+

lemma foldl_clearTimeout_fields [simp]:
  "outbox (foldl (\<lambda>acc (k, h). clearTimeout h acc) g ts) = outbox g"
  "connections (foldl (\<lambda>acc (k, h). clearTimeout h acc) g ts) = connections g"
  "config (foldl (\<lambda>acc (k, h). clearTimeout h acc) g ts) = config g"
  "heap (foldl (\<lambda>acc (k, h). clearTimeout h acc) g ts) = heap g"
  by (induction ts arbitrary: g; simp add: case_prod_beta)+

lemma stop_fields:
  "outbox (stop g) = outbox g" "connections (stop g) = []"
  "timeoutTimers (stop g) = []" "heap (stop g) = heap g" "config (stop g) = config g"
  by (simp_all add: stop_def Let_def)

section \<open>A live session, a closing one and one whose connect failed\<close>

text \<open>
  \<open>live0\<close>: a fresh gateway with the default configuration has accepted one upgrade.
  \<open>closing0\<close>: a management DELETE has then closed that session; its socket is closing and
  the \<^verbatim>\<open>close\<close> event has not been delivered yet. \<open>failed0\<close>: instead, the \<^verbatim>\<open>$connect\<close> promise
  of the session has resolved to false.
\<close>

definition live0 :: gateway where
  "live0 = handleConnection 0 req0 ''AbCdEfGhIjKl='' e0 (new_gateway DEFAULT_CONFIG)"

definition closing0 :: gateway where
  "closing0 = snd (handleManagementApi ''DELETE'' ''AbCdEfGhIjKl='' [] e0 live0)"

definition failed0 :: gateway where
  "failed0 = connect_resolved 0 False live0"

lemma req0_connection:
  "parse_query (searchParams req0) = queryParams conn0"
  "parse_headers (raw_headers req0) = headers conn0"
  by (simp_all add: req0_def conn0_def parse_query_def parse_headers_def js_assign_def
      toLowerCase_def toLowerCase_char_def)

lemma live0_heap: "map_of (heap live0) 0 = Some conn0"
  by (simp add: live0_def handleConnection_def Let_def new_gateway_def req0_connection)
    (simp add: conn0_def e0_def req0_def)

lemma live0_get: "get_connection live0 ''AbCdEfGhIjKl='' = Some conn0"
  by (simp add: live0_def handleConnection_def get_connection_def Let_def new_gateway_def
      req0_connection) (simp add: conn0_def e0_def req0_def)

lemma live0_open: "socket_open live0 conn0"
  by (simp add: live0_def handleConnection_def socket_open_def Let_def new_gateway_def conn0_def)

lemma live0_config: "config live0 = DEFAULT_CONFIG\<lparr> domainName := ''localhost:3001'' \<rparr>"
  by (simp add: live0_def handleConnection_def Let_def new_gateway_def DEFAULT_CONFIG_def
      nat_toString.simps digit_char_def digit_chars_def)

lemma closing0_get: "get_connection closing0 ''AbCdEfGhIjKl='' = Some conn0"
  using live0_get live0_open
  by (simp add: closing0_def handleManagementApi_def get_connection_def split: option.splits)

lemma closing0_not_open: "\<not> socket_open closing0 conn0"
  using live0_get live0_open
  by (simp add: closing0_def handleManagementApi_def socket_open_def socket_close_def
      ws_close_def update_conv' split: option.splits)

section \<open>DISCONNECT events\<close>

text \<open>The event type and connection id of every event a list of dispatches has sent.\<close>

fun event_of :: "dispatch \<Rightarrow> AWSWebSocketEvent option" where
  "event_of (Sent r) = (case req_body r of JsonEvent ev \<Rightarrow> Some ev | RawText t \<Rightarrow> None)"
| "event_of d = None"

fun dispatched :: "dispatch list \<Rightarrow> (EventType \<times> string) list" where
  "dispatched [] = []"
| "dispatched (d # ds) =
     (case event_of d of
        None \<Rightarrow> dispatched ds
      | Some ev \<Rightarrow>
          (rc_eventType (ev_requestContext ev), rc_connectionId (ev_requestContext ev))
            # dispatched ds)"

lemma dispatched_append: "dispatched (xs @ ys) = dispatched xs @ dispatched ys"
  by (induction xs) (simp_all split: option.splits)

text \<open>
  Claim C1, as stated, fails. A session whose \<^verbatim>\<open>$connect\<close> dispatch was not accepted is
  closed with 1011, and when the \<^verbatim>\<open>close\<close> event of its socket arrives the handler
  dispatches a DISCONNECT event for it. The same happens to a session that \<open>stop\<close> closed:
  the handler still holds the connection and dispatches DISCONNECT when the socket's
  \<^verbatim>\<open>close\<close> event arrives.
\<close>

theorem disconnect_after_failed_connect:
  "dispatched (outbox (run (\<lambda>m. None) (new_gateway DEFAULT_CONFIG)
       [Upgrade 0 req0 ''AbCdEfGhIjKl='' e0, ConnectResolved 0 False,
        SocketClosed 0 1011 ''Backend connect failed'' e0]))
     = [(CONNECT, ''AbCdEfGhIjKl=''), (DISCONNECT, ''AbCdEfGhIjKl='')]
   \<and> dispatched (outbox (run (\<lambda>m. None) (new_gateway DEFAULT_CONFIG)
       [Upgrade 0 req0 ''AbCdEfGhIjKl='' e0, ConnectResolved 0 True, Stop,
        SocketClosed 0 1001 ''Server shutting down'' e0]))
     = [(CONNECT, ''AbCdEfGhIjKl=''), (DISCONNECT, ''AbCdEfGhIjKl='')]"
proof -
  have up: "handleConnection 0 req0 ''AbCdEfGhIjKl='' e0 (new_gateway DEFAULT_CONFIG) = live0"
    by (simp add: live0_def)
  have o: "dispatched (outbox live0) = [(CONNECT, ''AbCdEfGhIjKl='')]"
    by (simp add: live0_def handleConnection_def Let_def new_gateway_def
        callBackend_def js_get_def DEFAULT_CONFIG_def getEventType_def
        buildLambdaEvent_def buildRequestContext_def)
  have d: "\<And>g code reason. map_of (heap g) 0 = Some conn0 \<Longrightarrow> config g = config live0 \<Longrightarrow>
      dispatched (outbox (on_close 0 code reason e0 g)) =
        dispatched (outbox g) @ [(DISCONNECT, ''AbCdEfGhIjKl='')]"
    by (simp add: on_close_def Let_def live0_config dispatched_append
        callBackend_def js_get_def DEFAULT_CONFIG_def getEventType_def
        buildLambdaEvent_def buildRequestContext_def conn0_def split: option.splits)
  have f: "map_of (heap (connect_resolved 0 b live0)) 0 = Some conn0"
      "config (connect_resolved 0 b live0) = config live0"
      "outbox (connect_resolved 0 b live0) = outbox live0" for b
    using live0_heap by (simp_all add: connect_resolved_def)
  show ?thesis
    by (simp add: run_def up d f stop_fields o)
qed

text \<open>
  Claim C1, amended: the \<^verbatim>\<open>close\<close> handler of a session's socket dispatches exactly one
  DISCONNECT event, with the observed code and reason, whenever the table resolves
  \<^verbatim>\<open>$disconnect\<close> or \<^verbatim>\<open>$default\<close>, and then removes the session's two timer entries and
  the session from the live set. It does so in every closing state, ClosingFailed and
  ClosingShutdown included: it does not look at the outcome of \<^verbatim>\<open>$connect\<close>. The callback
  of a failed \<^verbatim>\<open>$connect\<close> (which only closes the socket) and \<open>stop\<close> dispatch no event
  themselves.
\<close>

theorem close_handler_dispatches_disconnect:
  assumes "map_of (heap g) w = Some c"
    and "map_of (routes (config g)) ''$disconnect'' = Some i
         \<or> (map_of (routes (config g)) ''$disconnect'' = None
             \<and> map_of (routes (config g)) ''$default'' = Some i)"
  shows "outbox (on_close w code reason e g) =
           outbox g @
             [Sent \<lparr> req_url = uri i, req_method = ''POST'',
                     req_headers = [(''Content-Type'', ''application/json'')],
                     req_body = JsonEvent
                       (buildLambdaEvent (config g) c ''$disconnect'' DISCONNECT None
                          (Some \<lparr> disconnectStatusCode = code, disconnectReason = reason \<rparr>) e) \<rparr>]
         \<and> map_of (connections (on_close w code reason e g)) (conn_id c) = None
         \<and> map_of (timeoutTimers (on_close w code reason e g)) (conn_id c @ '':idle'') = None
         \<and> map_of (timeoutTimers (on_close w code reason e g)) (conn_id c @ '':hard'') = None
         \<and> outbox (connect_resolved w False g) = outbox g
         \<and> connections (connect_resolved w False g) = connections g
         \<and> outbox (stop g) = outbox g"
proof -
  let ?opts = "Some \<lparr> disconnectStatusCode = code, disconnectReason = reason \<rparr>"
  have cb: "callBackend (config g) ''$disconnect'' c None ?opts e =
      Sent \<lparr> req_url = uri i, req_method = ''POST'',
             req_headers = [(''Content-Type'', ''application/json'')],
             req_body = JsonEvent
               (buildLambdaEvent (config g) c ''$disconnect'' DISCONNECT None ?opts e) \<rparr>"
    using assms(2)
    by (auto simp: callBackend_def js_get_def getEventType_def object_prototype_keys_def)
  have o: "outbox (on_close w code reason e g) =
      outbox g @ [callBackend (config g) ''$disconnect'' c None ?opts e]"
    using assms(1) by (simp add: on_close_def Let_def split: option.splits)
  have l: "map_of (connections (on_close w code reason e g)) (conn_id c) = None"
    using assms(1) by (simp add: on_close_def Let_def delete_conv' split: option.splits)
  have t: "map_of (timeoutTimers (on_close w code reason e g)) (conn_id c @ '':idle'') = None"
      "map_of (timeoutTimers (on_close w code reason e g)) (conn_id c @ '':hard'') = None"
    using assms(1)
    by (simp_all add: on_close_def Let_def clearTimeouts_def delete_conv' split: option.splits)
  show ?thesis
    using o cb l t by (simp add: connect_resolved_def stop_fields)
qed

theorem close_handler_dispatches_disconnect_witness:
  "outbox (on_close 0 1011 ''Backend connect failed'' e0 failed0) =
     outbox failed0 @
       [Sent \<lparr> req_url = ''http://localhost:8080/ws/disconnect'', req_method = ''POST'',
               req_headers = [(''Content-Type'', ''application/json'')],
               req_body = JsonEvent
                 (buildLambdaEvent (config failed0) conn0 ''$disconnect'' DISCONNECT None
                    (Some \<lparr> disconnectStatusCode = 1011,
                            disconnectReason = ''Backend connect failed'' \<rparr>) e0) \<rparr>]
   \<and> map_of (connections (on_close 0 1011 ''Backend connect failed'' e0 failed0))
         ''AbCdEfGhIjKl='' = None"
proof -
  have h: "map_of (heap failed0) 0 = Some conn0"
    using live0_heap by (simp add: failed0_def connect_resolved_def)
  have r: "map_of (routes (config failed0)) ''$disconnect''
        = Some \<lparr> uri = ''http://localhost:8080/ws/disconnect'' \<rparr>
      \<or> (map_of (routes (config failed0)) ''$disconnect'' = None
          \<and> map_of (routes (config failed0)) ''$default''
               = Some \<lparr> uri = ''http://localhost:8080/ws/disconnect'' \<rparr>)"
    by (simp add: failed0_def connect_resolved_def live0_config DEFAULT_CONFIG_def)
  show ?thesis
    using close_handler_dispatches_disconnect [OF h r, of 1011 "''Backend connect failed''" e0]
    by (simp add: conn0_def)
qed

section \<open>The integration mode\<close>

definition cfg_http :: GatewayConfig where
  "cfg_http = DEFAULT_CONFIG\<lparr> integrationMode := http \<rparr>"

text \<open>
  Claim C2 says that with the mode \<^verbatim>\<open>http\<close> the POST body is the raw frame text, the
  context travels in request headers and the connect-time query parameters in the URL, the
  dispatcher selecting the mode from the configuration. The dispatcher does not read the
  mode: under \<^verbatim>\<open>http\<close> it sends what it sends under \<^verbatim>\<open>lambda_proxy\<close>. For the frame
  \<^verbatim>\<open>hello\<close> of a session connected with \<^verbatim>\<open>?token=abc\<close> the request goes to the bare integration
  URI, its only header is \<^verbatim>\<open>Content-Type: application/json\<close>, and its body is the serialised
  lambda-proxy event.
\<close>

theorem dispatcher_ignores_integration_mode:
  "callBackend (cfg\<lparr> integrationMode := http \<rparr>) routeKey c body opts e =
     callBackend (cfg\<lparr> integrationMode := lambda_proxy \<rparr>) routeKey c body opts e
   \<and> integrationMode cfg_http = http
   \<and> sent_request (callBackend cfg_http ''$default'' conn0 (Some ''hello'') None e0) =
       Some \<lparr> req_url = ''http://localhost:8080/ws/default'', req_method = ''POST'',
              req_headers = [(''Content-Type'', ''application/json'')],
              req_body = JsonEvent
                (buildLambdaEvent cfg_http conn0 ''$default'' MESSAGE (Some ''hello'') None e0) \<rparr>"
proof -
  have b: "\<And>m rk et. buildLambdaEvent (cfg\<lparr> integrationMode := m \<rparr>) c rk et body opts e =
      buildLambdaEvent cfg c rk et body opts e"
    by (simp add: buildLambdaEvent_def buildRequestContext_def)
  have g: "\<And>m. callBackend (cfg\<lparr> integrationMode := m \<rparr>) routeKey c body opts e =
      callBackend cfg routeKey c body opts e"
    by (simp add: callBackend_def b Let_def split: js_prop.splits)
  have c: "sent_request (callBackend cfg_http ''$default'' conn0 (Some ''hello'') None e0) =
       Some \<lparr> req_url = ''http://localhost:8080/ws/default'', req_method = ''POST'',
              req_headers = [(''Content-Type'', ''application/json'')],
              req_body = JsonEvent
                (buildLambdaEvent cfg_http conn0 ''$default'' MESSAGE (Some ''hello'') None e0) \<rparr>"
    by (simp add: callBackend_def cfg_http_def DEFAULT_CONFIG_def js_get_def getEventType_def)
  show ?thesis by (simp add: g c) (simp add: cfg_http_def)
qed

section \<open>The management API\<close>

text \<open>
  Claim C4 says that a successful management POST on a live open session bumps the
  activity timestamp and resets the idle timer. The handler answers 200 and sets
  \<open>lastActivityAt\<close>, but it does not call \<open>resetIdleTimeout\<close>: the timers and the timer
  table are exactly what they were, so the idle timer keeps running from the last frame.
\<close>

theorem management_post_leaves_idle_timer:
  assumes "get_connection g connectionId = Some c" and "socket_open g c"
  shows "res_status (fst (handleManagementApi ''POST'' connectionId body e g)) = 200
         \<and> timers (snd (handleManagementApi ''POST'' connectionId body e g)) = timers g
         \<and> timeoutTimers (snd (handleManagementApi ''POST'' connectionId body e g)) = timeoutTimers g
         \<and> map_of (heap (snd (handleManagementApi ''POST'' connectionId body e g))) (ws c)
             = Some (c\<lparr> lastActivityAt := now e \<rparr>)"
  using assms
  by (simp add: handleManagementApi_def empty_response_def update_conv')

theorem management_post_leaves_idle_timer_witness:
  "timers (snd (handleManagementApi ''POST'' ''AbCdEfGhIjKl='' ''ping'' e0 live0)) = timers live0
   \<and> timeoutTimers (snd (handleManagementApi ''POST'' ''AbCdEfGhIjKl='' ''ping'' e0 live0))
       = timeoutTimers live0
   \<and> res_status (fst (handleManagementApi ''POST'' ''AbCdEfGhIjKl='' ''ping'' e0 live0)) = 200"
  using management_post_leaves_idle_timer [OF live0_get live0_open, of "''ping''" e0] by simp

text \<open>
  Claim C5 says that GET, POST and DELETE answer 410 when the session is absent or its
  socket is closed. POST and DELETE test the socket; GET does not: for every session in the
  live set it answers 200, also while the socket is closing (after a DELETE, a timeout or
  a failed connect, until the \<^verbatim>\<open>close\<close> event removes the session).
\<close>

theorem management_get_ignores_socket_state:
  assumes "get_connection g connectionId = Some c"
  shows "res_status (fst (handleManagementApi ''GET'' connectionId body e g)) = 200"
  using assms by (simp add: handleManagementApi_def json_response_def)

theorem management_get_ignores_socket_state_witness:
  "\<not> socket_open closing0 conn0 \<and>
   res_status (fst (handleManagementApi ''GET'' ''AbCdEfGhIjKl='' [] e0 closing0)) = 200"
  using management_get_ignores_socket_state [OF closing0_get, of "[]" e0] closing0_not_open
  by simp

section \<open>Frames that select an inherited or a reserved name\<close>

definition cfg_action :: GatewayConfig where
  "cfg_action = DEFAULT_CONFIG\<lparr> routeSelectionExpression := Some ''$request.body.action'' \<rparr>"

lemma match_action: "match_request_body ''$request.body.action'' = Some ''action''"
  by (simp add: match_request_body_def)

text \<open>
  Claim C6 says that a terminal string that is not a key of the integration table selects
  \<^verbatim>\<open>$default\<close>. The selector tests \<^verbatim>\<open>this.config.routes[value]\<close>, which is also truthy for the
  names every object inherits: the frame \<^verbatim>\<open>{"action":"constructor"}\<close> selects the route key
  \<^verbatim>\<open>constructor\<close>, which the table does not have, and the dispatch under that key reaches no
  integration: \<^verbatim>\<open>fetch\<close> is given an undefined URI and the frame is dropped.
\<close>

theorem inherited_name_selected_as_route:
  assumes "JSON_parse message = Some (JObject [(''action'', JString ''constructor'')])"
  shows "selectRoute JSON_parse cfg_action message = ''constructor''
         \<and> map_of (routes cfg_action) ''constructor'' = None
         \<and> callBackend cfg_action (selectRoute JSON_parse cfg_action message) c (Some message) None e
             = FetchRejected"
proof -
  have s: "selectRoute JSON_parse cfg_action message = ''constructor''"
    using assms
    by (simp add: selectRoute_def cfg_action_def match_action DEFAULT_CONFIG_def js_get_def
        object_prototype_keys_def)
  have m: "map_of (routes cfg_action) ''constructor'' = None"
    by (simp add: cfg_action_def DEFAULT_CONFIG_def)
  have f: "callBackend cfg_action ''constructor'' c (Some message) None e = FetchRejected"
    by (simp add: callBackend_def cfg_action_def DEFAULT_CONFIG_def js_get_def
        object_prototype_keys_def)
  show ?thesis using s m f by simp
qed

theorem inherited_name_selected_as_route_witness:
  "selectRoute (\<lambda>m. Some (JObject [(''action'', JString ''constructor'')])) cfg_action ''frame''
     = ''constructor''
   \<and> map_of (routes cfg_action) ''constructor'' = None
   \<and> callBackend cfg_action ''constructor'' conn0 (Some ''frame'') None e0 = FetchRejected"
  using inherited_name_selected_as_route
    [of "\<lambda>m. Some (JObject [(''action'', JString ''constructor'')])" "''frame''" conn0 e0]
  by auto

text \<open>
  \<open>live_action\<close>: a gateway started with the route selection expression
  \<^verbatim>\<open>$request.body.action\<close> has accepted one upgrade.
\<close>

definition live_action :: gateway where
  "live_action =
     run (\<lambda>m. Some (JObject [(''action'', JString ''$connect'')])) (new_gateway cfg_action)
       [Upgrade 0 req0 ''AbCdEfGhIjKl='' e0]"

lemma live_action_heap: "map_of (heap live_action) 0 = Some conn0"
  by (simp add: live_action_def run_def handleConnection_def Let_def req0_connection)
    (simp add: conn0_def e0_def req0_def update_conv')

lemma live_action_config: "config live_action = config (new_gateway cfg_action)"
  by (simp add: live_action_def run_def handleConnection_def Let_def)

text \<open>
  Claim C7 says that the body of a lambda-proxy payload is the JSON literal null for
  CONNECT and DISCONNECT. The event type is derived from the route key, and the selector
  can return a reserved key: in a gateway started with the route selection expression
  \<^verbatim>\<open>$request.body.action\<close>, the frame \<^verbatim>\<open>{"action":"$connect"}\<close> is dispatched to the
  \<^verbatim>\<open>$connect\<close> integration as an event of type CONNECT whose body is the frame text.
\<close>

theorem frame_dispatched_as_connect_event:
  assumes "JSON_parse message = Some (JObject [(''action'', JString ''$connect'')])"
    and "map_of (heap g) w = Some c"
    and "config g = config (new_gateway cfg_action)"
  shows "outbox (on_message JSON_parse w message e g) =
           outbox g @
             [Sent \<lparr> req_url = ''http://localhost:8080/ws/connect'', req_method = ''POST'',
                     req_headers = [(''Content-Type'', ''application/json'')],
                     req_body = JsonEvent
                       (buildLambdaEvent (config (new_gateway cfg_action))
                          (c\<lparr> lastActivityAt := now e \<rparr>) ''$connect''
                          CONNECT (Some message) None e) \<rparr>]
         \<and> rc_eventType (ev_requestContext
               (buildLambdaEvent (config (new_gateway cfg_action))
                  (c\<lparr> lastActivityAt := now e \<rparr>) ''$connect''
                  CONNECT (Some message) None e)) = CONNECT
         \<and> ev_body (buildLambdaEvent (config (new_gateway cfg_action))
                  (c\<lparr> lastActivityAt := now e \<rparr>) ''$connect''
                  CONNECT (Some message) None e) = Some message
         \<and> rc_domainName (ev_requestContext
               (buildLambdaEvent (config (new_gateway cfg_action))
                  (c\<lparr> lastActivityAt := now e \<rparr>) ''$connect''
                  CONNECT (Some message) None e)) = ''localhost:3001''"
proof -
  let ?cfg = "config (new_gateway cfg_action)"
  have r: "routes ?cfg = routes DEFAULT_CONFIG"
      "routeSelectionExpression ?cfg = Some ''$request.body.action''"
      "domainName ?cfg = ''localhost:3001''"
    by (simp_all add: new_gateway_def cfg_action_def DEFAULT_CONFIG_def nat_toString.simps
        digit_char_def digit_chars_def)
  have s: "selectRoute JSON_parse ?cfg message = ''$connect''"
    using assms(1)
    by (simp add: selectRoute_def r match_action js_get_def) (simp add: DEFAULT_CONFIG_def)
  have cb: "callBackend ?cfg ''$connect'' (c\<lparr> lastActivityAt := now e \<rparr>) (Some message) None e =
      Sent \<lparr> req_url = ''http://localhost:8080/ws/connect'', req_method = ''POST'',
                     req_headers = [(''Content-Type'', ''application/json'')],
                     req_body = JsonEvent
                       (buildLambdaEvent ?cfg (c\<lparr> lastActivityAt := now e \<rparr>) ''$connect''
                          CONNECT (Some message) None e) \<rparr>"
    by (simp add: callBackend_def js_get_def getEventType_def r)
      (simp add: DEFAULT_CONFIG_def)
  show ?thesis
    using assms(2,3) s cb r(3)
    by (simp add: on_message_def Let_def buildLambdaEvent_def buildRequestContext_def)
qed

theorem frame_dispatched_as_connect_event_witness:
  "outbox (on_message (\<lambda>m. Some (JObject [(''action'', JString ''$connect'')])) 0 ''frame'' e0
            live_action) =
     outbox live_action @
       [Sent \<lparr> req_url = ''http://localhost:8080/ws/connect'', req_method = ''POST'',
               req_headers = [(''Content-Type'', ''application/json'')],
               req_body = JsonEvent
                 (buildLambdaEvent (config (new_gateway cfg_action))
                    (conn0\<lparr> lastActivityAt := now e0 \<rparr>) ''$connect''
                    CONNECT (Some ''frame'') None e0) \<rparr>]
   \<and> ev_body (buildLambdaEvent (config (new_gateway cfg_action))
                  (conn0\<lparr> lastActivityAt := now e0 \<rparr>) ''$connect''
                  CONNECT (Some ''frame'') None e0) = Some ''frame''
   \<and> rc_domainName (ev_requestContext
         (buildLambdaEvent (config (new_gateway cfg_action))
            (conn0\<lparr> lastActivityAt := now e0 \<rparr>) ''$connect''
            CONNECT (Some ''frame'') None e0)) = ''localhost:3001''"
  using frame_dispatched_as_connect_event
      [of "\<lambda>m. Some (JObject [(''action'', JString ''$connect'')])" "''frame''"
        live_action 0 conn0 e0, OF refl live_action_heap live_action_config]
  by simp

section \<open>The request time\<close>

subsection \<open>Year, month and date of a time value\<close>

lemma year_up_bounds:
  "DayFromYear y \<le> d \<Longrightarrow>
   DayFromYear (year_up y d) \<le> d \<and> d < DayFromYear (year_up y d + 1)"
proof (induction y d rule: year_up.induct)
  case (1 y d)
  show ?case
  proof (cases "DayFromYear (y + 1) \<le> d")
    case True
    then show ?thesis using "1.IH" by (simp add: year_up.simps[of y d])
  next
    case False
    then show ?thesis using "1.prems" by (simp add: year_up.simps[of y d])
  qed
qed

lemma year_down_bounds:
  "d < DayFromYear (y + 1) \<Longrightarrow>
   DayFromYear (year_down y d) \<le> d \<and> d < DayFromYear (year_down y d + 1)"
proof (induction y d rule: year_down.induct)
  case (1 y d)
  show ?case
  proof (cases "d < DayFromYear y")
    case True
    then show ?thesis using "1.IH" by (simp add: year_down.simps[of y d])
  next
    case False
    then show ?thesis using "1.prems" by (simp add: year_down.simps[of y d])
  qed
qed

lemma YearFromDay_bounds:
  "DayFromYear (YearFromDay d) \<le> d \<and> d < DayFromYear (YearFromDay d + 1)"
proof (cases "0 \<le> d")
  case True
  have "DayFromYear 1970 = 0" by (simp add: DayFromYear_def)
  then have "DayFromYear 1970 \<le> d" using True by simp
  from year_up_bounds[OF this] show ?thesis using True by (simp add: YearFromDay_def)
next
  case False
  have "DayFromYear (1969 + 1) = 0" by (simp add: DayFromYear_def)
  then have "d < DayFromYear (1969 + 1)" using False by simp
  from year_down_bounds[OF this] show ?thesis using False by (simp add: YearFromDay_def)
qed

lemma DayFromYear_mono: "a \<le> b \<Longrightarrow> DayFromYear a \<le> DayFromYear b"
proof (induction b rule: int_ge_induct)
  case base
  show ?case by simp
next
  case (step i)
  have "DayFromYear (i + 1) = DayFromYear i + DaysInYear i" by (rule DayFromYear_Suc)
  moreover have "0 < DaysInYear i" by (rule DaysInYear_pos)
  ultimately show ?case using step.IH by linarith
qed

lemma DayWithinYear_range:
  "0 \<le> DayWithinYear t \<and> DayWithinYear t < 365 + InLeapYear t"
proof -
  let ?y = "YearFromTime t"
  have b: "DayFromYear ?y \<le> Day t \<and> Day t < DayFromYear (?y + 1)"
    unfolding YearFromTime_def by (rule YearFromDay_bounds)
  have s: "DayFromYear (?y + 1) = DayFromYear ?y + DaysInYear ?y" by (rule DayFromYear_Suc)
  have l: "DaysInYear ?y = 365 + InLeapYear t"
    by (simp add: InLeapYear_def DaysInYear_def)
  show ?thesis using b s l by (simp add: DayWithinYear_def)
qed

lemma month_date_range:
  assumes "leap = 0 \<or> leap = 1" and "0 \<le> dwy" and "dwy < 365 + leap"
  shows "0 \<le> month_of_day leap dwy \<and> month_of_day leap dwy \<le> 11
         \<and> 1 \<le> dwy - month_start leap (month_of_day leap dwy) + 1
         \<and> dwy - month_start leap (month_of_day leap dwy) + 1 \<le> 31"
  using assms by (auto simp: month_of_day_def month_start_def)

lemma YearFromTime_range:
  assumes "- 30610224000000 \<le> t" and "t < 253402300800000"
  shows "1000 \<le> YearFromTime t \<and> YearFromTime t \<le> 9999"
proof -
  have d1: "DayFromYear 1000 \<le> Day t"
  proof -
    have "DayFromYear 1000 * msPerDay \<le> t" using assms(1) by (simp add: DayFromYear_def msPerDay_def)
    then have "(DayFromYear 1000 * msPerDay) div msPerDay \<le> t div msPerDay"
      by (rule zdiv_mono1) (simp add: msPerDay_def)
    then show ?thesis by (simp add: Day_def msPerDay_def)
  qed
  have d2: "Day t < DayFromYear 10000"
  proof -
    have "msPerDay * (t div msPerDay) + t mod msPerDay = t" by simp
    moreover have "0 \<le> t mod msPerDay" by (simp add: msPerDay_def)
    ultimately have "msPerDay * (t div msPerDay) \<le> t" by linarith
    moreover have "t < msPerDay * DayFromYear 10000"
      using assms(2) by (simp add: DayFromYear_def msPerDay_def)
    ultimately have "msPerDay * (t div msPerDay) < msPerDay * DayFromYear 10000" by linarith
    then show ?thesis by (simp add: Day_def msPerDay_def)
  qed
  let ?y = "YearFromTime t"
  have b: "DayFromYear ?y \<le> Day t \<and> Day t < DayFromYear (?y + 1)"
    unfolding YearFromTime_def by (rule YearFromDay_bounds)
  have "1000 \<le> ?y"
  proof (rule ccontr)
    assume "\<not> 1000 \<le> ?y"
    then have "?y + 1 \<le> 1000" by simp
    then have "DayFromYear (?y + 1) \<le> DayFromYear 1000" by (rule DayFromYear_mono)
    then show False using b d1 by linarith
  qed
  moreover have "?y \<le> 9999"
  proof (rule ccontr)
    assume "\<not> ?y \<le> 9999"
    then have "10000 \<le> ?y" by simp
    then have "DayFromYear 10000 \<le> DayFromYear ?y" by (rule DayFromYear_mono)
    then show False using b d2 by linarith
  qed
  ultimately show ?thesis by simp
qed

lemma time_of_day:
  "Day t * msPerDay + HourFromTime t * msPerHour + MinFromTime t * msPerMinute
     + SecFromTime t * msPerSecond = t - t mod 1000"
proof -
  define a where "a = t div 1000"
  define b where "b = a div 60"
  define c where "c = b div 60"
  have t: "t = 1000 * a + t mod 1000" unfolding a_def by simp
  have a: "a = 60 * b + a mod 60" unfolding b_def by simp
  have b: "b = 60 * c + b mod 60" unfolding c_def by simp
  have c: "c = 24 * (c div 24) + c mod 24" by simp
  have m: "t div msPerMinute = b"
    unfolding msPerMinute_def b_def a_def
    using zdiv_zmult2_eq[of 60 t 1000] by simp
  have h: "t div msPerHour = c"
    unfolding msPerHour_def c_def b_def a_def
    using zdiv_zmult2_eq[of 60 t 1000] zdiv_zmult2_eq[of 60 t 60000] by simp
  have d: "t div msPerDay = c div 24"
    unfolding msPerDay_def c_def b_def a_def
    using zdiv_zmult2_eq[of 60 t 1000] zdiv_zmult2_eq[of 60 t 60000]
      zdiv_zmult2_eq[of 24 t 3600000] by simp
  have s: "t div msPerSecond = a" unfolding msPerSecond_def a_def by simp
  show ?thesis
    unfolding Day_def HourFromTime_def MinFromTime_def SecFromTime_def d h m s
    unfolding msPerDay_def msPerHour_def msPerMinute_def msPerSecond_def
    using t a b c by linarith
qed

subsection \<open>The pattern of the request time and its decoding\<close>

text \<open>
  Regular expressions without repetition, matched against a string with a continuation
  for the rest; \<open>regex_test\<close> anchors the match at both ends, as \<^verbatim>\<open>^\<close> and \<^verbatim>\<open>$\<close> do.
  \<open>requestTime_regex\<close> is
  \<^verbatim>\<open>^\d{2}/(Jan|Feb|Mar|Apr|May|Jun|Jul|Aug|Sep|Oct|Nov|Dec)/\d{4}:\d{2}:\d{2}:\d{2} \+0000$\<close>.
  \<open>decodeRequestTime\<close> reads the fields of such a string back as a UTC moment.
\<close>

datatype regex = Never | Eps | Lit char | DigitC | Seq regex regex | Alt regex regex

fun rmatch :: "regex \<Rightarrow> string \<Rightarrow> (string \<Rightarrow> bool) \<Rightarrow> bool" where
  "rmatch Never s k = False"
| "rmatch Eps s k = k s"
| "rmatch (Lit c) s k = (case s of [] \<Rightarrow> False | x # xs \<Rightarrow> x = c \<and> k xs)"
| "rmatch DigitC s k = (case s of [] \<Rightarrow> False | x # xs \<Rightarrow> is_digit x \<and> k xs)"
| "rmatch (Seq a b) s k = rmatch a s (\<lambda>r. rmatch b r k)"
| "rmatch (Alt a b) s k = (rmatch a s k \<or> rmatch b s k)"

definition regex_test :: "regex \<Rightarrow> string \<Rightarrow> bool" where
  "regex_test r s = rmatch r s (\<lambda>rest. rest = [])"

definition lits :: "string \<Rightarrow> regex" where
  "lits s = foldr (\<lambda>c r. Seq (Lit c) r) s Eps"

definition seqs :: "regex list \<Rightarrow> regex" where
  "seqs rs = foldr Seq rs Eps"

definition alts :: "regex list \<Rightarrow> regex" where
  "alts rs = foldr Alt rs Never"

definition requestTime_regex :: regex where
  "requestTime_regex =
     seqs [DigitC, DigitC, Lit CHR ''/'',
           alts (map lits [''Jan'', ''Feb'', ''Mar'', ''Apr'', ''May'', ''Jun'',
                           ''Jul'', ''Aug'', ''Sep'', ''Oct'', ''Nov'', ''Dec'']),
           Lit CHR ''/'', DigitC, DigitC, DigitC, DigitC, Lit CHR '':'',
           DigitC, DigitC, Lit CHR '':'', DigitC, DigitC, Lit CHR '':'', DigitC, DigitC,
           Lit CHR '' '', Lit CHR ''+'', lits ''0000'']"

definition two_digits :: "char \<Rightarrow> char \<Rightarrow> int" where
  "two_digits a b = int (10 * digit_val a + digit_val b)"

fun month_index :: "string list \<Rightarrow> string \<Rightarrow> int option" where
  "month_index [] name = None"
| "month_index (m # ms) name =
     (if m = name then Some 0 else map_option (\<lambda>i. i + 1) (month_index ms name))"

definition decodeRequestTime :: "string \<Rightarrow> int option" where
  "decodeRequestTime s =
     (if length s \<noteq> 26 then None
      else (case month_index months [s ! 3, s ! 4, s ! 5] of
              None \<Rightarrow> None
            | Some m \<Rightarrow>
                Some (Date_UTC (100 * two_digits (s ! 7) (s ! 8) + two_digits (s ! 9) (s ! 10)) m
                        (two_digits (s ! 0) (s ! 1)) (two_digits (s ! 12) (s ! 13))
                        (two_digits (s ! 15) (s ! 16)) (two_digits (s ! 18) (s ! 19)))))"

lemma digit_cases: "d < 10 \<Longrightarrow> d \<in> {0, 1, 2, 3, 4, 5, 6, 7, 8, 9::nat}"
  by auto

lemma is_digit_digit_char: "is_digit (digit_char n)"
proof -
  have "n mod 10 < length digit_chars" by (simp add: digit_chars_def)
  then show ?thesis unfolding is_digit_def digit_char_def by (rule nth_mem)
qed

lemma digit_val_digit_char: "n < 10 \<Longrightarrow> digit_val (digit_char n) = n"
  using digit_cases[of n] by (auto simp: digit_char_def digit_chars_def digit_val_def)

lemma nat_toString_1: "n < 10 \<Longrightarrow> nat_toString n = [digit_char n]"
  by (simp add: nat_toString.simps[of n])

lemma nat_toString_2:
  "10 \<le> n \<Longrightarrow> n < 100 \<Longrightarrow> nat_toString n = [digit_char (n div 10), digit_char (n mod 10)]"
  by (simp add: nat_toString.simps[of n] nat_toString_1)

lemma nat_toString_3:
  "100 \<le> n \<Longrightarrow> n < 1000 \<Longrightarrow>
   nat_toString n = [digit_char (n div 100), digit_char (n div 10 mod 10), digit_char (n mod 10)]"
proof -
  assume a: "100 \<le> n" "n < 1000"
  have "10 \<le> n div 10" "n div 10 < 100" using a by simp_all
  then have "nat_toString (n div 10) = [digit_char (n div 10 div 10), digit_char (n div 10 mod 10)]"
    by (rule nat_toString_2)
  moreover have "n div 10 div 10 = n div 100" by (simp add: div_mult2_eq[symmetric])
  ultimately show ?thesis using a by (simp add: nat_toString.simps[of n])
qed

lemma nat_toString_4:
  "1000 \<le> n \<Longrightarrow> n < 10000 \<Longrightarrow>
   nat_toString n = [digit_char (n div 1000), digit_char (n div 100 mod 10),
                     digit_char (n div 10 mod 10), digit_char (n mod 10)]"
proof -
  assume a: "1000 \<le> n" "n < 10000"
  have "100 \<le> n div 10" "n div 10 < 1000" using a by simp_all
  then have "nat_toString (n div 10) =
      [digit_char (n div 10 div 100), digit_char (n div 10 div 10 mod 10),
       digit_char (n div 10 mod 10)]"
    by (rule nat_toString_3)
  moreover have "n div 10 div 100 = n div 1000" "n div 10 div 10 = n div 100"
    by (simp_all add: div_mult2_eq[symmetric])
  ultimately show ?thesis using a by (simp add: nat_toString.simps[of n])
qed

lemma pad_two:
  assumes "0 \<le> n" and "n < 100"
  shows "pad n = [digit_char (nat n div 10), digit_char (nat n mod 10)]"
proof (cases "nat n < 10")
  case True
  then have "nat_toString (nat n) = [digit_char (nat n)]" by (rule nat_toString_1)
  moreover have "digit_char (nat n div 10) = CHR ''0''"
    using True by (simp add: digit_char_def digit_chars_def)
  ultimately show ?thesis
    using assms True by (simp add: pad_def int_toString_def padStart2_def)
next
  case False
  then have "10 \<le> nat n" "nat n < 100" using assms by simp_all
  then have "nat_toString (nat n) = [digit_char (nat n div 10), digit_char (nat n mod 10)]"
    by (rule nat_toString_2)
  then show ?thesis using assms by (simp add: pad_def int_toString_def padStart2_def)
qed

lemma two_digits_pad:
  assumes "0 \<le> n" and "n < 100"
  shows "two_digits (digit_char (nat n div 10)) (digit_char (nat n mod 10)) = n"
proof -
  have "nat n div 10 < 10" "nat n mod 10 < 10" using assms by simp_all
  then show ?thesis
    using assms by (simp add: two_digits_def digit_val_digit_char)
qed

lemma rmatch_lits: "rmatch (lits s) (s @ rest) k = k rest"
  by (induction s) (simp_all add: lits_def)

lemma rmatch_month:
  assumes "0 \<le> m" and "m < 12" and "k rest"
  shows "rmatch (alts (map lits [''Jan'', ''Feb'', ''Mar'', ''Apr'', ''May'', ''Jun'',
                           ''Jul'', ''Aug'', ''Sep'', ''Oct'', ''Nov'', ''Dec'']))
           (months_at m @ rest) k"
proof -
  have "nat m < length months" using assms(1,2) by (simp add: months_def)
  then have "months ! nat m \<in> set months" by (rule nth_mem)
  then have "months_at m \<in> set months"
    using assms(1,2) by (simp add: months_at_def)
  then have "months_at m \<in> set [''Jan'', ''Feb'', ''Mar'', ''Apr'', ''May'', ''Jun'',
                           ''Jul'', ''Aug'', ''Sep'', ''Oct'', ''Nov'', ''Dec'']"
    by (simp add: months_def)
  then show ?thesis
    using assms(3) rmatch_lits[of "months_at m" rest k]
    by (auto simp: alts_def)
qed

lemma month_index_nth:
  "i < length ms \<Longrightarrow> distinct ms \<Longrightarrow> month_index ms (ms ! i) = Some (int i)"
proof (induction ms arbitrary: i)
  case Nil
  then show ?case by simp
next
  case (Cons m ms)
  show ?case
  proof (cases i)
    case 0
    then show ?thesis by simp
  next
    case (Suc j)
    then have j: "j < length ms" using Cons.prems(1) by simp
    then have "ms ! j \<in> set ms" by (rule nth_mem)
    then have "m \<noteq> ms ! j" using Cons.prems(2) by auto
    moreover have "month_index ms (ms ! j) = Some (int j)"
      using Cons.IH[OF j] Cons.prems(2) by simp
    ultimately show ?thesis using Suc by simp
  qed
qed

lemma three_chars: "length (xs :: string) = 3 \<Longrightarrow> \<exists>a b c. xs = [a, b, c]"
  by (auto simp: length_Suc_conv numeral_3_eq_3)

lemma month_name_index:
  assumes "0 \<le> m" and "m < 12"
  shows "\<exists>a b c. months_at m = [a, b, c] \<and> month_index months [a, b, c] = Some m"
proof -
  have i: "nat m < length months" using assms by (simp add: months_def)
  have d: "distinct months" by (simp add: months_def)
  have "\<forall>x \<in> set months. length x = 3" by (simp add: months_def)
  moreover have "months ! nat m \<in> set months" using i by (rule nth_mem)
  ultimately have "length (months ! nat m) = 3" by simp
  then obtain a b c where abc: "months ! nat m = [a, b, c]" using three_chars by blast
  have "month_index months (months ! nat m) = Some (int (nat m))"
    using i d by (rule month_index_nth)
  then have "month_index months [a, b, c] = Some m" using abc assms by simp
  moreover have "months_at m = [a, b, c]" using abc assms by (simp add: months_at_def)
  ultimately show ?thesis by blast
qed


lemma nat_toString_year:
  assumes "1000 \<le> n" and "n < 10000"
  shows "nat_toString n =
           [digit_char (n div 100 div 10), digit_char (n div 100 mod 10),
            digit_char (n mod 100 div 10), digit_char (n mod 100 mod 10)]"
proof -
  have a: "n div 1000 = n div 100 div 10" by (simp add: div_mult2_eq[symmetric])
  have m: "n mod 100 = 10 * (n div 10 mod 10) + n mod 10"
    using mod_mult2_eq[of n 10 10] by simp
  have b: "n div 10 mod 10 = n mod 100 div 10" unfolding m by simp
  have c: "n mod 10 = n mod 100 mod 10" unfolding m by simp
  have d: "n div 100 mod 10 = n div 100 mod 10" by simp
  show ?thesis
    using nat_toString_4[OF assms] a b c by simp
qed


lemma format_parts:
  assumes "- 30610224000000 \<le> t" and "t < 253402300800000"
  shows "\<exists>a b c. months_at (MonthFromTime t) = [a, b, c]
           \<and> month_index months [a, b, c] = Some (MonthFromTime t)
           \<and> formatRequestTime t =
               [digit_char (nat (DateFromTime t) div 10), digit_char (nat (DateFromTime t) mod 10),
                CHR ''/'', a, b, c, CHR ''/'',
                digit_char (nat (YearFromTime t) div 100 div 10),
                digit_char (nat (YearFromTime t) div 100 mod 10),
                digit_char (nat (YearFromTime t) mod 100 div 10),
                digit_char (nat (YearFromTime t) mod 100 mod 10), CHR '':'',
                digit_char (nat (HourFromTime t) div 10), digit_char (nat (HourFromTime t) mod 10),
                CHR '':'',
                digit_char (nat (MinFromTime t) div 10), digit_char (nat (MinFromTime t) mod 10),
                CHR '':'',
                digit_char (nat (SecFromTime t) div 10), digit_char (nat (SecFromTime t) mod 10),
                CHR '' '', CHR ''+'', CHR ''0'', CHR ''0'', CHR ''0'', CHR ''0'']"
proof -
  have y: "1000 \<le> YearFromTime t \<and> YearFromTime t \<le> 9999"
    using assms by (rule YearFromTime_range)
  have l: "InLeapYear t = 0 \<or> InLeapYear t = 1" by (simp add: InLeapYear_def)
  have w: "0 \<le> DayWithinYear t" "DayWithinYear t < 365 + InLeapYear t"
    using DayWithinYear_range[of t] by simp_all
  have md: "0 \<le> MonthFromTime t \<and> MonthFromTime t \<le> 11
      \<and> 1 \<le> DateFromTime t \<and> DateFromTime t \<le> 31"
    using month_date_range[OF l w] by (simp add: MonthFromTime_def DateFromTime_def)
  obtain a b c where abc: "months_at (MonthFromTime t) = [a, b, c]"
      "month_index months [a, b, c] = Some (MonthFromTime t)"
    using month_name_index[of "MonthFromTime t"] md by auto
  have pd: "pad (DateFromTime t) =
      [digit_char (nat (DateFromTime t) div 10), digit_char (nat (DateFromTime t) mod 10)]"
    using md by (intro pad_two) simp_all
  have ph: "pad (HourFromTime t) =
      [digit_char (nat (HourFromTime t) div 10), digit_char (nat (HourFromTime t) mod 10)]"
    by (intro pad_two) (simp_all add: HourFromTime_def)
  have pm: "pad (MinFromTime t) =
      [digit_char (nat (MinFromTime t) div 10), digit_char (nat (MinFromTime t) mod 10)]"
    by (intro pad_two) (simp_all add: MinFromTime_def)
  have ps: "pad (SecFromTime t) =
      [digit_char (nat (SecFromTime t) div 10), digit_char (nat (SecFromTime t) mod 10)]"
    by (intro pad_two) (simp_all add: SecFromTime_def)
  have py: "int_toString (YearFromTime t) =
      [digit_char (nat (YearFromTime t) div 100 div 10),
       digit_char (nat (YearFromTime t) div 100 mod 10),
       digit_char (nat (YearFromTime t) mod 100 div 10),
       digit_char (nat (YearFromTime t) mod 100 mod 10)]"
  proof -
    have "1000 \<le> nat (YearFromTime t)" using y by linarith
    moreover have "nat (YearFromTime t) < 10000" using y by linarith
    ultimately have "nat_toString (nat (YearFromTime t)) =
      [digit_char (nat (YearFromTime t) div 100 div 10),
       digit_char (nat (YearFromTime t) div 100 mod 10),
       digit_char (nat (YearFromTime t) mod 100 div 10),
       digit_char (nat (YearFromTime t) mod 100 mod 10)]" by (rule nat_toString_year)
    then show ?thesis using y by (simp add: int_toString_def)
  qed
  have "formatRequestTime t = [digit_char (nat (DateFromTime t) div 10), digit_char (nat (DateFromTime t) mod 10),
                CHR ''/'', a, b, c, CHR ''/'',
                digit_char (nat (YearFromTime t) div 100 div 10),
                digit_char (nat (YearFromTime t) div 100 mod 10),
                digit_char (nat (YearFromTime t) mod 100 div 10),
                digit_char (nat (YearFromTime t) mod 100 mod 10), CHR '':'',
                digit_char (nat (HourFromTime t) div 10), digit_char (nat (HourFromTime t) mod 10),
                CHR '':'',
                digit_char (nat (MinFromTime t) div 10), digit_char (nat (MinFromTime t) mod 10),
                CHR '':'',
                digit_char (nat (SecFromTime t) div 10), digit_char (nat (SecFromTime t) mod 10),
                CHR '' '', CHR ''+'', CHR ''0'', CHR ''0'', CHR ''0'', CHR ''0'']"
    unfolding formatRequestTime_def pd ph pm ps py abc(1) by simp
  then show ?thesis using abc by blast
qed


lemma format_matches:
  assumes "- 30610224000000 \<le> t" and "t < 253402300800000"
  shows "regex_test requestTime_regex (formatRequestTime t)"
proof -
  obtain a b c where m: "months_at (MonthFromTime t) = [a, b, c]"
    and f: "formatRequestTime t =
               [digit_char (nat (DateFromTime t) div 10), digit_char (nat (DateFromTime t) mod 10),
                CHR ''/'', a, b, c, CHR ''/'',
                digit_char (nat (YearFromTime t) div 100 div 10),
                digit_char (nat (YearFromTime t) div 100 mod 10),
                digit_char (nat (YearFromTime t) mod 100 div 10),
                digit_char (nat (YearFromTime t) mod 100 mod 10), CHR '':'',
                digit_char (nat (HourFromTime t) div 10), digit_char (nat (HourFromTime t) mod 10),
                CHR '':'',
                digit_char (nat (MinFromTime t) div 10), digit_char (nat (MinFromTime t) mod 10),
                CHR '':'',
                digit_char (nat (SecFromTime t) div 10), digit_char (nat (SecFromTime t) mod 10),
                CHR '' '', CHR ''+'', CHR ''0'', CHR ''0'', CHR ''0'', CHR ''0'']"
    using format_parts[OF assms] by blast
  have l: "InLeapYear t = 0 \<or> InLeapYear t = 1" by (simp add: InLeapYear_def)
  have w: "0 \<le> DayWithinYear t" "DayWithinYear t < 365 + InLeapYear t"
    using DayWithinYear_range[of t] by simp_all
  have md: "0 \<le> MonthFromTime t" "MonthFromTime t < 12"
    using month_date_range[OF l w] by (simp_all add: MonthFromTime_def)
  let ?tail = "[CHR ''/'',
                digit_char (nat (YearFromTime t) div 100 div 10),
                digit_char (nat (YearFromTime t) div 100 mod 10),
                digit_char (nat (YearFromTime t) mod 100 div 10),
                digit_char (nat (YearFromTime t) mod 100 mod 10), CHR '':'',
                digit_char (nat (HourFromTime t) div 10), digit_char (nat (HourFromTime t) mod 10),
                CHR '':'',
                digit_char (nat (MinFromTime t) div 10), digit_char (nat (MinFromTime t) mod 10),
                CHR '':'',
                digit_char (nat (SecFromTime t) div 10), digit_char (nat (SecFromTime t) mod 10),
                CHR '' '', CHR ''+'', CHR ''0'', CHR ''0'', CHR ''0'', CHR ''0'']"
  let ?rest = "seqs [Lit CHR ''/'', DigitC, DigitC, DigitC, DigitC, Lit CHR '':'',
           DigitC, DigitC, Lit CHR '':'', DigitC, DigitC, Lit CHR '':'', DigitC, DigitC,
           Lit CHR '' '', Lit CHR ''+'', lits ''0000'']"
  have t: "rmatch ?rest ?tail (\<lambda>rest. rest = [])"
    by (simp add: seqs_def lits_def is_digit_digit_char)
  have mm: "rmatch (alts (map lits [''Jan'', ''Feb'', ''Mar'', ''Apr'', ''May'', ''Jun'',
                           ''Jul'', ''Aug'', ''Sep'', ''Oct'', ''Nov'', ''Dec'']))
           (months_at (MonthFromTime t) @ ?tail) (\<lambda>r. rmatch ?rest r (\<lambda>rest. rest = []))"
    using md(1) md(2) t by (rule rmatch_month)
  have e: "formatRequestTime t =
      digit_char (nat (DateFromTime t) div 10) # digit_char (nat (DateFromTime t) mod 10)
        # CHR ''/'' # (months_at (MonthFromTime t) @ ?tail)"
    unfolding f m by simp
  show ?thesis
    unfolding regex_test_def e requestTime_regex_def
    using mm by (simp add: seqs_def is_digit_digit_char)
qed

lemma format_decodes:
  assumes "- 30610224000000 \<le> t" and "t < 253402300800000"
  shows "decodeRequestTime (formatRequestTime t) = Some (t - t mod 1000)"
proof -
  obtain a b c where m: "month_index months [a, b, c] = Some (MonthFromTime t)"
    and f: "formatRequestTime t =
               [digit_char (nat (DateFromTime t) div 10), digit_char (nat (DateFromTime t) mod 10),
                CHR ''/'', a, b, c, CHR ''/'',
                digit_char (nat (YearFromTime t) div 100 div 10),
                digit_char (nat (YearFromTime t) div 100 mod 10),
                digit_char (nat (YearFromTime t) mod 100 div 10),
                digit_char (nat (YearFromTime t) mod 100 mod 10), CHR '':'',
                digit_char (nat (HourFromTime t) div 10), digit_char (nat (HourFromTime t) mod 10),
                CHR '':'',
                digit_char (nat (MinFromTime t) div 10), digit_char (nat (MinFromTime t) mod 10),
                CHR '':'',
                digit_char (nat (SecFromTime t) div 10), digit_char (nat (SecFromTime t) mod 10),
                CHR '' '', CHR ''+'', CHR ''0'', CHR ''0'', CHR ''0'', CHR ''0'']"
    using format_parts[OF assms] by blast
  have y: "1000 \<le> YearFromTime t \<and> YearFromTime t \<le> 9999"
    using assms by (rule YearFromTime_range)
  have l: "InLeapYear t = 0 \<or> InLeapYear t = 1" by (simp add: InLeapYear_def)
  have w: "0 \<le> DayWithinYear t" "DayWithinYear t < 365 + InLeapYear t"
    using DayWithinYear_range[of t] by simp_all
  have md: "1 \<le> DateFromTime t \<and> DateFromTime t \<le> 31"
    using month_date_range[OF l w] by (simp add: MonthFromTime_def DateFromTime_def)
  have dd: "two_digits (digit_char (nat (DateFromTime t) div 10))
      (digit_char (nat (DateFromTime t) mod 10)) = DateFromTime t"
    using md by (intro two_digits_pad) simp_all
  have dh: "two_digits (digit_char (nat (HourFromTime t) div 10))
      (digit_char (nat (HourFromTime t) mod 10)) = HourFromTime t"
    by (intro two_digits_pad) (simp_all add: HourFromTime_def)
  have dm: "two_digits (digit_char (nat (MinFromTime t) div 10))
      (digit_char (nat (MinFromTime t) mod 10)) = MinFromTime t"
    by (intro two_digits_pad) (simp_all add: MinFromTime_def)
  have ds: "two_digits (digit_char (nat (SecFromTime t) div 10))
      (digit_char (nat (SecFromTime t) mod 10)) = SecFromTime t"
    by (intro two_digits_pad) (simp_all add: SecFromTime_def)
  define k where "k = nat (YearFromTime t)"
  have hi: "two_digits (digit_char (k div 100 div 10)) (digit_char (k div 100 mod 10))
      = int (k div 100)"
  proof -
    have "k < 100 * 100" using y unfolding k_def by linarith
    then have "k div 100 < 100" by (rule less_mult_imp_div_less)
    then have "two_digits (digit_char (nat (int (k div 100)) div 10))
        (digit_char (nat (int (k div 100)) mod 10)) = int (k div 100)"
      by (intro two_digits_pad) simp_all
    then show ?thesis by simp
  qed
  have lo: "two_digits (digit_char (k mod 100 div 10)) (digit_char (k mod 100 mod 10))
      = int (k mod 100)"
  proof -
    have "two_digits (digit_char (nat (int (k mod 100)) div 10))
        (digit_char (nat (int (k mod 100)) mod 10)) = int (k mod 100)"
      by (intro two_digits_pad) simp_all
    then show ?thesis by simp
  qed
  have yy: "100 * int (k div 100) + int (k mod 100) = YearFromTime t"
  proof -
    have e: "100 * (k div 100) + k mod 100 = k" by simp
    have "100 * int (k div 100) + int (k mod 100) = int (100 * (k div 100) + k mod 100)"
      by (simp only: of_nat_add of_nat_mult of_nat_numeral)
    also have "\<dots> = int k" by (simp only: e)
    also have "\<dots> = YearFromTime t" using y by (simp add: k_def)
    finally show ?thesis .
  qed
  have dwy: "month_start (InLeapYear t) (MonthFromTime t) + DateFromTime t - 1 = DayWithinYear t"
    by (simp add: DateFromTime_def)
  have day: "DayFromYear (YearFromTime t) + month_start (InLeapYear t) (MonthFromTime t)
      + DateFromTime t - 1 = Day t"
    using dwy by (simp add: DayWithinYear_def)
  have utc: "Date_UTC (YearFromTime t) (MonthFromTime t) (DateFromTime t) (HourFromTime t)
      (MinFromTime t) (SecFromTime t) = t - t mod 1000"
    using time_of_day[of t] day
    by (simp add: Date_UTC_def InLeapYear_def)
  show ?thesis
    unfolding f decodeRequestTime_def
    using m utc
    by (simp add: dd dh dm ds hi[unfolded k_def] lo[unfolded k_def] yy[unfolded k_def])
qed

text \<open>
  Claim C9: every \<open>requestTime\<close> placed in a request context matches the pattern
  \<^verbatim>\<open>^\d{2}/(Jan|...|Dec)/\d{4}:\d{2}:\d{2}:\d{2} \+0000$\<close>, and read back as a UTC time it is
  the moment of \<open>requestTimeEpoch\<close> with the milliseconds cut off, hence within 2 seconds
  of it. The clock is taken to show a year of four digits (1000 to 9999).
\<close>

theorem requestTime_matches_and_decodes:
  assumes "- 30610224000000 \<le> now e" and "now e < 253402300800000"
  shows "regex_test requestTime_regex
           (rc_requestTime (buildRequestContext cfg c routeKey eventType opts e))
         \<and> decodeRequestTime (rc_requestTime (buildRequestContext cfg c routeKey eventType opts e))
             = Some (rc_requestTimeEpoch (buildRequestContext cfg c routeKey eventType opts e)
                     - rc_requestTimeEpoch (buildRequestContext cfg c routeKey eventType opts e)
                         mod 1000)
         \<and> \<bar>(rc_requestTimeEpoch (buildRequestContext cfg c routeKey eventType opts e)
               - rc_requestTimeEpoch (buildRequestContext cfg c routeKey eventType opts e) mod 1000)
             - rc_requestTimeEpoch (buildRequestContext cfg c routeKey eventType opts e)\<bar> \<le> 2000"
proof -
  have m: "regex_test requestTime_regex (formatRequestTime (now e))"
    using assms by (rule format_matches)
  have d: "decodeRequestTime (formatRequestTime (now e)) = Some (now e - now e mod 1000)"
    using assms by (rule format_decodes)
  have "0 \<le> now e mod 1000" "now e mod 1000 < 1000" by simp_all
  then have b: "\<bar>(now e - now e mod 1000) - now e\<bar> \<le> 2000" by linarith
  show ?thesis using m d b by (simp add: buildRequestContext_def)
qed

theorem requestTime_matches_and_decodes_witness:
  "rc_requestTime (buildRequestContext DEFAULT_CONFIG conn0 ''$connect'' CONNECT None e0)
     = ''14/Nov/2023:22:13:20 +0000''
   \<and> regex_test requestTime_regex
       (rc_requestTime (buildRequestContext DEFAULT_CONFIG conn0 ''$connect'' CONNECT None e0))
   \<and> decodeRequestTime
       (rc_requestTime (buildRequestContext DEFAULT_CONFIG conn0 ''$connect'' CONNECT None e0))
       = Some 1700000000000"
proof -
  have f: "formatRequestTime 1700000000000 = ''14/Nov/2023:22:13:20 +0000''"
    by (simp add: formatRequestTime_def pad_def int_toString_def padStart2_def months_at_def
        months_def DateFromTime_def MonthFromTime_def YearFromTime_def HourFromTime_def
        MinFromTime_def SecFromTime_def DayWithinYear_def InLeapYear_def Day_def
        YearFromDay_def year_up.simps DayFromYear_def DaysInYear_def month_of_day_def
        month_start_def msPerDay_def msPerHour_def msPerMinute_def msPerSecond_def
        nat_toString.simps digit_char_def digit_chars_def)
  have a: "- 30610224000000 \<le> now e0" "now e0 < 253402300800000" by (simp_all add: e0_def)
  show ?thesis
    using requestTime_matches_and_decodes
      [OF a, of DEFAULT_CONFIG conn0 "''$connect''" CONNECT None] f
    by (simp add: buildRequestContext_def e0_def)
qed

section \<open>The timers of a session\<close>

text \<open>
  The key under which a timer is stored, the hard timers ever made for a session, its
  pending timers of one kind, and the ids admitted by a list of events.
\<close>

definition timer_key :: "timer \<Rightarrow> string" where
  "timer_key t = timer_connectionId t @ (if timer_kind t = Idle then '':idle'' else '':hard'')"

definition hard_timers :: "string \<Rightarrow> gateway \<Rightarrow> timer list" where
  "hard_timers cid g =
     filter (\<lambda>t. timer_connectionId t = cid \<and> timer_kind t = Hard) (timers g)"

definition pending_of :: "string \<Rightarrow> timer_kind \<Rightarrow> gateway \<Rightarrow> timer list" where
  "pending_of cid k g =
     filter (\<lambda>t. timer_connectionId t = cid \<and> timer_kind t = k \<and> timer_status t = Pending)
       (timers g)"

fun upgrade_ids :: "event list \<Rightarrow> string list" where
  "upgrade_ids [] = []"
| "upgrade_ids (Upgrade w req connectionId e # evs) = connectionId # upgrade_ids evs"
| "upgrade_ids (ev # evs) = upgrade_ids evs"

lemma upgrade_ids_append: "upgrade_ids (xs @ ys) = upgrade_ids xs @ upgrade_ids ys"
  by (induction xs rule: upgrade_ids.induct) simp_all

text \<open>Three facts about \<open>filter\<close> and a list updated in one place.\<close>

lemma map_filter_update:
  "h < length xs \<Longrightarrow> Q x' = Q (xs ! h) \<Longrightarrow> f x' = f (xs ! h) \<Longrightarrow>
   map f (filter Q (xs[h := x'])) = map f (filter Q xs)"
proof (induction xs arbitrary: h)
  case Nil
  then show ?case by simp
next
  case (Cons x xs)
  then show ?case by (cases h) auto
qed

lemma filter_update_outside:
  "h < length xs \<Longrightarrow> \<not> Q x' \<Longrightarrow> \<not> Q (xs ! h) \<Longrightarrow> filter Q (xs[h := x']) = filter Q xs"
proof (induction xs arbitrary: h)
  case Nil
  then show ?case by simp
next
  case (Cons x xs)
  then show ?case by (cases h) auto
qed

lemma filter_at_most_one:
  "(\<And>i j. i < length xs \<Longrightarrow> j < length xs \<Longrightarrow> Q (xs ! i) \<Longrightarrow> Q (xs ! j) \<Longrightarrow> i = j)
   \<Longrightarrow> length (filter Q xs) \<le> 1"
proof (induction xs)
  case Nil
  then show ?case by simp
next
  case (Cons x xs)
  have ih: "length (filter Q xs) \<le> 1"
  proof (rule Cons.IH)
    fix i j assume "i < length xs" "j < length xs" "Q (xs ! i)" "Q (xs ! j)"
    then have "Suc i = Suc j" using Cons.prems[of "Suc i" "Suc j"] by simp
    then show "i = j" by simp
  qed
  show ?case
  proof (cases "Q x")
    case True
    have "filter Q xs = []"
    proof (rule ccontr)
      assume "filter Q xs \<noteq> []"
      then obtain y where "y \<in> set xs" "Q y" by (auto simp: filter_empty_conv)
      then obtain i where "i < length xs" "Q (xs ! i)" by (auto simp: in_set_conv_nth)
      then have "Suc i = 0" using Cons.prems[of "Suc i" 0] True by simp
      then show False by simp
    qed
    then show ?thesis using True by simp
  next
    case False
    then show ?thesis using ih by simp
  qed
qed

text \<open>The timers and the timer table after each operation of the timeout management.\<close>

lemma timers_clearTimeout:
  "timers (clearTimeout h g) =
     (if h < length (timers g) \<and> timer_status (timers g ! h) = Pending
      then (timers g)[h := (timers g ! h)\<lparr> timer_status := Cleared \<rparr>] else timers g)"
  by (simp add: clearTimeout_def)

lemma timers_resetIdleTimeout:
  "timers (resetIdleTimeout cid g) =
     timers (clear_if_set (map_of (timeoutTimers g) (cid @ '':idle'')) g)
       @ [\<lparr> timer_connectionId = cid, timer_kind = Idle,
            timer_delay = timeout_after (idleTimeout (config g) * 1000), timer_status = Pending \<rparr>]"
  "timeoutTimers (resetIdleTimeout cid g) =
     AList.update (cid @ '':idle'') (length (timers g)) (timeoutTimers g)"
  by (simp_all add: resetIdleTimeout_def setTimeout_def Let_def clear_if_set_def
      timers_clearTimeout split: option.splits)

lemma timers_setupTimeouts:
  "timers (setupTimeouts cid g) =
     timers (resetIdleTimeout cid g)
       @ [\<lparr> timer_connectionId = cid, timer_kind = Hard,
            timer_delay = timeout_after (hardTimeout (config g) * 1000), timer_status = Pending \<rparr>]"
  "timeoutTimers (setupTimeouts cid g) =
     AList.update (cid @ '':hard'') (Suc (length (timers g)))
       (timeoutTimers (resetIdleTimeout cid g))"
  by (simp_all add: setupTimeouts_def setTimeout_def Let_def timers_resetIdleTimeout
      clear_if_set_def timers_clearTimeout split: option.splits)

lemma timers_clearTimeouts:
  "timers (clearTimeouts cid g) =
     timers (clear_if_set (map_of (timeoutTimers g) (cid @ '':hard''))
              (clear_if_set (map_of (timeoutTimers g) (cid @ '':idle'')) g))"
  "timeoutTimers (clearTimeouts cid g) =
     AList.delete (cid @ '':hard'') (AList.delete (cid @ '':idle'') (timeoutTimers g))"
  by (simp_all add: clearTimeouts_def Let_def)

text \<open>The delays of the hard timers ever made for a session, in the order they were made.\<close>

definition hard_delays :: "string \<Rightarrow> gateway \<Rightarrow> int list" where
  "hard_delays cid g = map timer_delay (hard_timers cid g)"

lemma hard_delays_clearTimeout [simp]: "hard_delays cid (clearTimeout h g) = hard_delays cid g"
  by (simp add: hard_delays_def hard_timers_def timers_clearTimeout map_filter_update)

lemma hard_delays_clear_if_set [simp]: "hard_delays cid (clear_if_set x g) = hard_delays cid g"
  by (simp add: clear_if_set_def split: option.splits)

lemma hard_delays_resetIdleTimeout [simp]:
  "hard_delays cid (resetIdleTimeout c g) = hard_delays cid g"
proof -
  have "hard_delays cid (resetIdleTimeout c g) =
      hard_delays cid (clear_if_set (map_of (timeoutTimers g) (c @ '':idle'')) g)"
    by (simp add: hard_delays_def hard_timers_def timers_resetIdleTimeout)
  then show ?thesis by simp
qed

lemma hard_delays_setupTimeouts:
  "hard_delays cid (setupTimeouts c g) =
     hard_delays cid g @ (if c = cid then [timeout_after (hardTimeout (config g) * 1000)] else [])"
proof -
  have "hard_delays cid (setupTimeouts c g) =
      hard_delays cid (resetIdleTimeout c g)
        @ (if c = cid then [timeout_after (hardTimeout (config g) * 1000)] else [])"
    by (simp add: hard_delays_def hard_timers_def timers_setupTimeouts)
  then show ?thesis by simp
qed

lemma hard_delays_clearTimeouts [simp]:
  "hard_delays cid (clearTimeouts c g) = hard_delays cid g"
proof -
  have "hard_delays cid (clearTimeouts c g) =
      hard_delays cid (clear_if_set (map_of (timeoutTimers g) (c @ '':hard''))
              (clear_if_set (map_of (timeoutTimers g) (c @ '':idle'')) g))"
    by (simp add: hard_delays_def hard_timers_def timers_clearTimeouts)
  then show ?thesis by simp
qed

lemma hard_delays_only_timers:
  "timers g' = timers g \<Longrightarrow> hard_delays cid g' = hard_delays cid g"
  by (simp add: hard_delays_def hard_timers_def)

lemma hard_delays_timer_fired [simp]: "hard_delays cid (timer_fired h g) = hard_delays cid g"
proof (cases "h < length (timers g) \<and> timer_status (timers g ! h) = Pending")
  case True
  let ?g1 = "g\<lparr> timers := (timers g)[h := (timers g ! h)\<lparr> timer_status := Fired \<rparr>] \<rparr>"
  have a: "hard_delays cid ?g1 = hard_delays cid g"
    using True by (simp add: hard_delays_def hard_timers_def map_filter_update)
  have "hard_delays cid (timer_fired h g) = hard_delays cid ?g1"
    using True
    by (intro hard_delays_only_timers) (simp add: timer_fired_def Let_def split: option.splits)
  then show ?thesis using a by simp
next
  case False
  then show ?thesis by (auto simp: timer_fired_def)
qed

lemma hard_delays_foldl_clearTimeout [simp]:
  "hard_delays cid (foldl (\<lambda>acc (k, h). clearTimeout h acc) g ts) = hard_delays cid g"
  by (induction ts arbitrary: g) (simp_all add: case_prod_beta)

lemma hard_delays_stop [simp]: "hard_delays cid (stop g) = hard_delays cid g"
proof -
  let ?g2 = "(foldl (\<lambda>acc (cid, w). socket_close w 1001 ''Server shutting down'' acc) g
                 (connections g))\<lparr> connections := [] \<rparr>"
  have "hard_delays cid (stop g) =
      hard_delays cid (foldl (\<lambda>acc (k, h). clearTimeout h acc) ?g2 (timeoutTimers ?g2))"
    by (intro hard_delays_only_timers) (simp add: stop_def Let_def)
  also have "\<dots> = hard_delays cid ?g2" by simp
  also have "\<dots> = hard_delays cid g" by (intro hard_delays_only_timers) simp
  finally show ?thesis .
qed

lemma timers_handleManagementApi [simp]:
  "timers (snd (handleManagementApi m cid body e g)) = timers g"
  "timeoutTimers (snd (handleManagementApi m cid body e g)) = timeoutTimers g"
  "config (snd (handleManagementApi m cid body e g)) = config g"
  by (simp_all add: handleManagementApi_def Let_def split: option.splits)

lemma handleManagementApi_pair:
  assumes "handleManagementApi m cid body e g = (a, b)"
  shows "timers b = timers g" "timeoutTimers b = timeoutTimers g" "config b = config g"
  using timers_handleManagementApi[of m cid body e g] assms by simp_all

lemma handleHttpRequest_timers:
  "case handleHttpRequest req e u g of
     Inl err \<Rightarrow> True
   | Inr p \<Rightarrow> timers (snd p) = timers g \<and> timeoutTimers (snd p) = timeoutTimers g
              \<and> config (snd p) = config g"
  by (auto simp: handleHttpRequest_def Let_def split: option.splits sum.splits
      dest: handleManagementApi_pair)

lemma timers_http [simp]:
  "timers (step P g (Http req e u)) = timers g"
  "timeoutTimers (step P g (Http req e u)) = timeoutTimers g"
  "config (step P g (Http req e u)) = config g"
  using handleHttpRequest_timers[where req=req and e=e and u=u and g=g]
  by (auto split: sum.splits)


declare step.simps(6) [simp del]

lemma config_step [simp]: "config (step P g ev) = config g"
proof (cases ev)
  case (Upgrade w req c e)
  then show ?thesis by (simp add: handleConnection_def Let_def)
next
  case (ConnectResolved w b)
  then show ?thesis by (simp add: connect_resolved_def)
next
  case (Frame w m e)
  then show ?thesis by (simp add: on_message_def Let_def split: option.splits)
next
  case (SocketClosed w code reason e)
  then show ?thesis by (simp add: on_close_def Let_def split: option.splits)
next
  case (TimerFired h)
  then show ?thesis by (simp add: timer_fired_def Let_def split: option.splits)
next
  case (Http req e u)
  then show ?thesis by simp
next
  case Stop
  then show ?thesis by (simp add: stop_fields)
qed

lemma config_run [simp]: "config (run P g evs) = config g"
  unfolding run_def by (induction evs rule: rev_induct) simp_all

fun admits :: "event \<Rightarrow> string \<Rightarrow> bool" where
  "admits (Upgrade w req c e) cid = (c = cid)"
| "admits ev cid = False"

lemma hard_delays_step:
  "hard_delays cid (step P g ev) =
     hard_delays cid g @ (if admits ev cid then [timeout_after (hardTimeout (config g) * 1000)] else [])"
proof (cases ev)
  case (Upgrade w req c e)
  let ?g1 = "g\<lparr> sockets :=
                   AList.update w \<lparr> readyState = OPEN, sent = [], close_call = None \<rparr> (sockets g),
                 heap := AList.update w
                   \<lparr> conn_id = c, ws = w, connectedAt = now e, lastActivityAt = now e,
              queryParams = parse_query (searchParams req),
              headers = parse_headers (raw_headers req),
              sourceIp = replace_first ''::ffff:'' []
                (case remoteAddress req of
                   None \<Rightarrow> ''127.0.0.1''
                 | Some a \<Rightarrow> if a = [] then ''127.0.0.1'' else a),
              userAgent =
                (case map_of (raw_headers req) ''user-agent'' of
                   Some (HString s) \<Rightarrow> s
                 | _ \<Rightarrow> []) \<rparr> (heap g),
                 connections := AList.update c w (connections g) \<rparr>"
  have "hard_delays cid (step P g ev) = hard_delays cid (setupTimeouts c ?g1)"
    unfolding Upgrade by (intro hard_delays_only_timers) (simp add: handleConnection_def Let_def)
  also have "\<dots> = hard_delays cid ?g1 @ (if c = cid then [timeout_after (hardTimeout (config ?g1) * 1000)] else [])"
    by (rule hard_delays_setupTimeouts)
  also have "hard_delays cid ?g1 = hard_delays cid g" by (intro hard_delays_only_timers) simp
  finally show ?thesis using Upgrade by simp
next
  case (ConnectResolved w b)
  have "hard_delays cid (step P g ev) = hard_delays cid g"
    unfolding ConnectResolved
    by (intro hard_delays_only_timers) (simp add: connect_resolved_def)
  then show ?thesis using ConnectResolved by simp
next
  case (Frame w m e)
  show ?thesis
  proof (cases "map_of (heap g) w")
    case None
    then show ?thesis using Frame by (simp add: on_message_def)
  next
    case (Some c)
    let ?g1 = "g\<lparr> heap := AList.update w (c\<lparr> lastActivityAt := now e \<rparr>) (heap g) \<rparr>"
    have "hard_delays cid (step P g ev) = hard_delays cid (resetIdleTimeout (conn_id c) ?g1)"
      unfolding Frame using Some
      by (intro hard_delays_only_timers) (simp add: on_message_def Let_def)
    also have "\<dots> = hard_delays cid ?g1" by simp
    also have "\<dots> = hard_delays cid g" by (intro hard_delays_only_timers) simp
    finally show ?thesis using Frame by simp
  qed
next
  case (SocketClosed w code reason e)
  show ?thesis
  proof (cases "map_of (heap g) w")
    case None
    then show ?thesis using SocketClosed by (simp add: on_close_def)
  next
    case (Some c)
    define g0 where "g0 = (case map_of (sockets g) w of
                       None \<Rightarrow> g
                     | Some sock \<Rightarrow>
                         g\<lparr> sockets := AList.update w (sock\<lparr> readyState := CLOSED \<rparr>) (sockets g) \<rparr>)"
    define g1 where "g1 = g0\<lparr> outbox := outbox g0 @
                      [callBackend (config g) ''$disconnect'' c None
                         (Some \<lparr> disconnectStatusCode = code, disconnectReason = reason \<rparr>) e] \<rparr>"
    have t: "timers g1 = timers g" by (simp add: g1_def g0_def split: option.splits)
    have "hard_delays cid (step P g ev) = hard_delays cid (clearTimeouts (conn_id c) g1)"
      unfolding SocketClosed using Some
      by (intro hard_delays_only_timers) (simp add: on_close_def Let_def g1_def g0_def)
    also have "\<dots> = hard_delays cid g1" by simp
    also have "\<dots> = hard_delays cid g" using t by (rule hard_delays_only_timers)
    finally show ?thesis using SocketClosed by simp
  qed
next
  case (TimerFired h)
  then show ?thesis by simp
next
  case (Http req e u)
  have "hard_delays cid (step P g ev) = hard_delays cid g"
    unfolding Http by (intro hard_delays_only_timers) simp
  then show ?thesis using Http by simp
next
  case Stop
  then show ?thesis by simp
qed

lemma count_admits: "count_list (upgrade_ids (evs @ [ev])) cid =
    count_list (upgrade_ids evs) cid + (if admits ev cid then 1 else 0)"
  by (cases ev) (simp_all add: upgrade_ids_append)

lemma hard_delays_run:
  "hard_delays cid (run P g evs) =
     hard_delays cid g @ replicate (count_list (upgrade_ids evs) cid)
       (timeout_after (hardTimeout (config g) * 1000))"
proof (induction evs rule: rev_induct)
  case Nil
  then show ?case by (simp add: run_def)
next
  case (snoc ev evs)
  have "run P g (evs @ [ev]) = step P (run P g evs) ev" by (simp add: run_def)
  then show ?case
    using snoc hard_delays_step[of cid P "run P g evs" ev] count_admits[of evs ev cid]
    by (simp add: replicate_append_same)
qed


text \<open>
  Two invariants of the timers and the timer table. \<open>table_ok\<close>: every entry of the table
  holds a timer that exists and is stored under that timer's key. \<open>idle_ok\<close>: every pending
  idle timer is the one the table holds under its key. \<open>settled ts ts'\<close>: \<open>ts'\<close> is \<open>ts\<close>
  with some timers no longer pending.
\<close>

definition table_ok :: "timer list \<Rightarrow> (string \<times> nat) list \<Rightarrow> bool" where
  "table_ok ts tab =
     (\<forall>k h. map_of tab k = Some h \<longrightarrow> h < length ts \<and> timer_key (ts ! h) = k)"

definition idle_ok :: "timer list \<Rightarrow> (string \<times> nat) list \<Rightarrow> bool" where
  "idle_ok ts tab =
     (\<forall>h. h < length ts \<and> timer_status (ts ! h) = Pending \<and> timer_kind (ts ! h) = Idle
          \<longrightarrow> map_of tab (timer_key (ts ! h)) = Some h)"

definition settled :: "timer list \<Rightarrow> timer list \<Rightarrow> bool" where
  "settled ts ts' =
     (length ts' = length ts \<and>
      (\<forall>i < length ts. timer_key (ts' ! i) = timer_key (ts ! i)
          \<and> timer_kind (ts' ! i) = timer_kind (ts ! i)
          \<and> (timer_status (ts' ! i) = Pending \<longrightarrow> timer_status (ts ! i) = Pending)))"

lemma settled_refl [simp]: "settled ts ts"
  by (simp add: settled_def)

lemma settled_trans: "settled a b \<Longrightarrow> settled b c \<Longrightarrow> settled a c"
  by (simp add: settled_def)

lemma settled_nth:
  "settled ts ts' \<Longrightarrow> i < length ts \<Longrightarrow>
   timer_key (ts' ! i) = timer_key (ts ! i) \<and> timer_kind (ts' ! i) = timer_kind (ts ! i)
   \<and> (timer_status (ts' ! i) = Pending \<longrightarrow> timer_status (ts ! i) = Pending)"
  by (simp add: settled_def)

lemma settled_length: "settled ts ts' \<Longrightarrow> length ts' = length ts"
  by (simp add: settled_def)

lemma settled_update:
  assumes "s \<noteq> Pending"
  shows "settled ts (ts[h := (ts ! h)\<lparr> timer_status := s \<rparr>])"
proof (cases "h < length ts")
  case True
  then show ?thesis using assms by (simp add: settled_def nth_list_update timer_key_def)
next
  case False
  then have "length ts \<le> h" by simp
  then have "ts[h := (ts ! h)\<lparr> timer_status := s \<rparr>] = ts" by (rule list_update_beyond)
  then show ?thesis by simp
qed

lemma settled_ok:
  assumes "settled ts ts'" and "table_ok ts tab" and "idle_ok ts tab"
  shows "table_ok ts' tab" and "idle_ok ts' tab"
proof -
  show "table_ok ts' tab"
    using assms(1,2) by (simp add: settled_def table_ok_def)
  show "idle_ok ts' tab"
    unfolding idle_ok_def
  proof (intro allI impI)
    fix h assume a: "h < length ts' \<and> timer_status (ts' ! h) = Pending \<and> timer_kind (ts' ! h) = Idle"
    then have "h < length ts" using assms(1) by (simp add: settled_def)
    moreover from this have "timer_key (ts' ! h) = timer_key (ts ! h)"
        "timer_kind (ts' ! h) = timer_kind (ts ! h)" "timer_status (ts ! h) = Pending"
      using assms(1) a by (simp_all add: settled_def)
    ultimately show "map_of tab (timer_key (ts' ! h)) = Some h"
      using assms(3) a by (simp add: idle_ok_def)
  qed
qed

lemma settled_clearTimeout: "settled (timers g) (timers (clearTimeout h g))"
  by (simp add: timers_clearTimeout settled_update)

lemma cleared_clearTimeout:
  "h < length (timers g) \<Longrightarrow> timer_status (timers (clearTimeout h g) ! h) \<noteq> Pending"
  by (simp add: timers_clearTimeout)

lemma settled_clear_if_set: "settled (timers g) (timers (clear_if_set x g))"
  by (simp add: clear_if_set_def settled_clearTimeout split: option.splits)

lemma cleared_clear_if_set:
  "h < length (timers g) \<Longrightarrow> timer_status (timers (clear_if_set (Some h) g) ! h) \<noteq> Pending"
  by (simp add: clear_if_set_def cleared_clearTimeout)

lemma key_idle_hard: "a @ '':idle'' \<noteq> b @ '':hard''"
  by simp

lemma key_idle_inj: "(a @ '':idle'' = b @ '':idle'') = (a = b)"
  by simp

lemma key_of_idle: "timer_kind t = Idle \<Longrightarrow> timer_key t = timer_connectionId t @ '':idle''"
  by (simp add: timer_key_def)

text \<open>Every operation keeps both invariants.\<close>

lemma resetIdleTimeout_ok:
  assumes t: "table_ok (timers g) (timeoutTimers g)"
    and i: "idle_ok (timers g) (timeoutTimers g)"
  shows "table_ok (timers (resetIdleTimeout cid g)) (timeoutTimers (resetIdleTimeout cid g))"
    and "idle_ok (timers (resetIdleTimeout cid g)) (timeoutTimers (resetIdleTimeout cid g))"
proof -
  let ?x = "map_of (timeoutTimers g) (cid @ '':idle'')"
  let ?ts1 = "timers (clear_if_set ?x g)"
  let ?new = "\<lparr> timer_connectionId = cid, timer_kind = Idle,
            timer_delay = timeout_after (idleTimeout (config g) * 1000), timer_status = Pending \<rparr>"
  let ?tab = "timeoutTimers g"
  have s: "settled (timers g) ?ts1" by (rule settled_clear_if_set)
  have len: "length ?ts1 = length (timers g)" using s by (simp add: settled_def)
  have t1: "table_ok ?ts1 ?tab" and i1: "idle_ok ?ts1 ?tab"
    using settled_ok[OF s t i] by simp_all
  have T: "timers (resetIdleTimeout cid g) = ?ts1 @ [?new]"
    and B: "timeoutTimers (resetIdleTimeout cid g) =
        AList.update (cid @ '':idle'') (length (timers g)) ?tab"
    by (simp_all add: timers_resetIdleTimeout)
  show "table_ok (timers (resetIdleTimeout cid g)) (timeoutTimers (resetIdleTimeout cid g))"
    unfolding T B table_ok_def
  proof (intro allI impI)
    fix k h
    assume a: "map_of (AList.update (cid @ '':idle'') (length (timers g)) ?tab) k = Some h"
    show "h < length (?ts1 @ [?new]) \<and> timer_key ((?ts1 @ [?new]) ! h) = k"
    proof (cases "k = cid @ '':idle''")
      case True
      then have "h = length (timers g)" using a by (simp add: update_conv')
      then show ?thesis using True len by (simp add: nth_append timer_key_def)
    next
      case False
      then have "map_of ?tab k = Some h" using a by (simp add: update_conv')
      then have "h < length ?ts1 \<and> timer_key (?ts1 ! h) = k" using t1 by (simp add: table_ok_def)
      then show ?thesis by (simp add: nth_append)
    qed
  qed
  show "idle_ok (timers (resetIdleTimeout cid g)) (timeoutTimers (resetIdleTimeout cid g))"
    unfolding T B idle_ok_def
  proof (intro allI impI)
    fix h
    assume a: "h < length (?ts1 @ [?new]) \<and> timer_status ((?ts1 @ [?new]) ! h) = Pending
        \<and> timer_kind ((?ts1 @ [?new]) ! h) = Idle"
    show "map_of (AList.update (cid @ '':idle'') (length (timers g)) ?tab)
        (timer_key ((?ts1 @ [?new]) ! h)) = Some h"
    proof (cases "h < length ?ts1")
      case False
      then have "h = length (timers g)" using a len by simp
      then show ?thesis using len by (simp add: nth_append timer_key_def update_conv')
    next
      case True
      then have p: "timer_status (?ts1 ! h) = Pending" "timer_kind (?ts1 ! h) = Idle"
        using a by (simp_all add: nth_append)
      then have m: "map_of ?tab (timer_key (?ts1 ! h)) = Some h"
        using i1 True by (simp add: idle_ok_def)
      have "timer_key (?ts1 ! h) \<noteq> cid @ '':idle''"
      proof
        assume "timer_key (?ts1 ! h) = cid @ '':idle''"
        then have "?x = Some h" using m by simp
        then have "timer_status (?ts1 ! h) \<noteq> Pending"
          using cleared_clear_if_set[of h g] True len by simp
        then show False using p by simp
      qed
      then show ?thesis using m True by (simp add: nth_append update_conv')
    qed
  qed
qed


lemma setupTimeouts_ok:
  assumes t: "table_ok (timers g) (timeoutTimers g)"
    and i: "idle_ok (timers g) (timeoutTimers g)"
  shows "table_ok (timers (setupTimeouts cid g)) (timeoutTimers (setupTimeouts cid g))"
    and "idle_ok (timers (setupTimeouts cid g)) (timeoutTimers (setupTimeouts cid g))"
proof -
  let ?r = "resetIdleTimeout cid g"
  let ?new = "\<lparr> timer_connectionId = cid, timer_kind = Hard,
            timer_delay = timeout_after (hardTimeout (config g) * 1000), timer_status = Pending \<rparr>"
  have tr: "table_ok (timers ?r) (timeoutTimers ?r)" and ir: "idle_ok (timers ?r) (timeoutTimers ?r)"
    using resetIdleTimeout_ok[OF t i] by simp_all
  have len: "length (timers ?r) = Suc (length (timers g))"
    using settled_clear_if_set[of g "map_of (timeoutTimers g) (cid @ '':idle'')"]
    by (simp add: timers_resetIdleTimeout settled_def)
  have T: "timers (setupTimeouts cid g) = timers ?r @ [?new]"
    and B: "timeoutTimers (setupTimeouts cid g) =
        AList.update (cid @ '':hard'') (Suc (length (timers g))) (timeoutTimers ?r)"
    by (simp_all add: timers_setupTimeouts)
  show "table_ok (timers (setupTimeouts cid g)) (timeoutTimers (setupTimeouts cid g))"
    unfolding T B table_ok_def
  proof (intro allI impI)
    fix k h
    assume a: "map_of (AList.update (cid @ '':hard'') (Suc (length (timers g))) (timeoutTimers ?r)) k
        = Some h"
    show "h < length (timers ?r @ [?new]) \<and> timer_key ((timers ?r @ [?new]) ! h) = k"
    proof (cases "k = cid @ '':hard''")
      case True
      then have "h = length (timers ?r)" using a len by (simp add: update_conv')
      then show ?thesis using True by (simp add: nth_append timer_key_def)
    next
      case False
      then have "map_of (timeoutTimers ?r) k = Some h" using a by (simp add: update_conv')
      then have "h < length (timers ?r) \<and> timer_key (timers ?r ! h) = k"
        using tr by (simp add: table_ok_def)
      then show ?thesis by (simp add: nth_append)
    qed
  qed
  show "idle_ok (timers (setupTimeouts cid g)) (timeoutTimers (setupTimeouts cid g))"
    unfolding T B idle_ok_def
  proof (intro allI impI)
    fix h
    assume a: "h < length (timers ?r @ [?new]) \<and> timer_status ((timers ?r @ [?new]) ! h) = Pending
        \<and> timer_kind ((timers ?r @ [?new]) ! h) = Idle"
    have lt: "h < length (timers ?r)"
    proof (rule ccontr)
      assume "\<not> h < length (timers ?r)"
      then have "h = length (timers ?r)" using a by simp
      then show False using a by (simp add: nth_append)
    qed
    then have p: "timer_status (timers ?r ! h) = Pending" "timer_kind (timers ?r ! h) = Idle"
      using a by (simp_all add: nth_append)
    then have m: "map_of (timeoutTimers ?r) (timer_key (timers ?r ! h)) = Some h"
      using ir lt by (simp add: idle_ok_def)
    have "timer_key (timers ?r ! h) \<noteq> cid @ '':hard''"
      using p(2) by (simp add: timer_key_def)
    then show "map_of (AList.update (cid @ '':hard'') (Suc (length (timers g))) (timeoutTimers ?r))
        (timer_key ((timers ?r @ [?new]) ! h)) = Some h"
      using m lt by (simp add: nth_append update_conv')
  qed
qed

lemma clearTimeouts_ok:
  assumes t: "table_ok (timers g) (timeoutTimers g)"
    and i: "idle_ok (timers g) (timeoutTimers g)"
  shows "table_ok (timers (clearTimeouts cid g)) (timeoutTimers (clearTimeouts cid g))"
    and "idle_ok (timers (clearTimeouts cid g)) (timeoutTimers (clearTimeouts cid g))"
proof -
  let ?xi = "map_of (timeoutTimers g) (cid @ '':idle'')"
  let ?xh = "map_of (timeoutTimers g) (cid @ '':hard'')"
  let ?g1 = "clear_if_set ?xi g"
  let ?ts = "timers (clear_if_set ?xh ?g1)"
  let ?tab = "timeoutTimers g"
  have s1: "settled (timers g) (timers ?g1)" by (rule settled_clear_if_set)
  have s2: "settled (timers ?g1) ?ts" by (rule settled_clear_if_set)
  have s: "settled (timers g) ?ts" using s1 s2 by (rule settled_trans)
  have t1: "table_ok ?ts ?tab" and i1: "idle_ok ?ts ?tab"
    using settled_ok[OF s t i] by simp_all
  have T: "timers (clearTimeouts cid g) = ?ts"
    and B: "timeoutTimers (clearTimeouts cid g) =
        AList.delete (cid @ '':hard'') (AList.delete (cid @ '':idle'') ?tab)"
    by (simp_all add: timers_clearTimeouts)
  show "table_ok (timers (clearTimeouts cid g)) (timeoutTimers (clearTimeouts cid g))"
    unfolding T B using t1 by (auto simp: table_ok_def delete_conv' split: if_splits)
  show "idle_ok (timers (clearTimeouts cid g)) (timeoutTimers (clearTimeouts cid g))"
    unfolding T B idle_ok_def
  proof (intro allI impI)
    fix h
    assume a: "h < length ?ts \<and> timer_status (?ts ! h) = Pending \<and> timer_kind (?ts ! h) = Idle"
    then have m: "map_of ?tab (timer_key (?ts ! h)) = Some h"
      using i1 by (simp add: idle_ok_def)
    have len: "length (timers ?g1) = length (timers g)" "length ?ts = length (timers g)"
      using s1 s by (simp_all add: settled_def)
    have nh: "timer_key (?ts ! h) \<noteq> cid @ '':hard''"
      using a by (simp add: timer_key_def)
    have ni: "timer_key (?ts ! h) \<noteq> cid @ '':idle''"
    proof
      assume "timer_key (?ts ! h) = cid @ '':idle''"
      then have "?xi = Some h" using m by simp
      then have "timer_status (timers ?g1 ! h) \<noteq> Pending"
        using cleared_clear_if_set[of h g] a len by simp
      moreover have "timer_status (?ts ! h) = Pending \<longrightarrow> timer_status (timers ?g1 ! h) = Pending"
        using s2 a len by (simp add: settled_def)
      ultimately show False using a by simp
    qed
    show "map_of (AList.delete (cid @ '':hard'') (AList.delete (cid @ '':idle'') ?tab))
        (timer_key (?ts ! h)) = Some h"
      using m nh ni by (simp add: delete_conv')
  qed
qed

lemma timer_fired_ok:
  assumes t: "table_ok (timers g) (timeoutTimers g)"
    and i: "idle_ok (timers g) (timeoutTimers g)"
  shows "table_ok (timers (timer_fired h g)) (timeoutTimers (timer_fired h g))"
    and "idle_ok (timers (timer_fired h g)) (timeoutTimers (timer_fired h g))"
proof -
  have T: "timers (timer_fired h g) =
      (if h < length (timers g) \<and> timer_status (timers g ! h) = Pending
       then (timers g)[h := (timers g ! h)\<lparr> timer_status := Fired \<rparr>] else timers g)"
    and B: "timeoutTimers (timer_fired h g) = timeoutTimers g"
    by (simp_all add: timer_fired_def Let_def split: option.splits)
  have s: "settled (timers g) (timers (timer_fired h g))"
    unfolding T by (simp add: settled_update)
  show "table_ok (timers (timer_fired h g)) (timeoutTimers (timer_fired h g))"
    and "idle_ok (timers (timer_fired h g)) (timeoutTimers (timer_fired h g))"
    using settled_ok[OF s t i] B by simp_all
qed

lemma settled_foldl_clearTimeout:
  "settled (timers g) (timers (foldl (\<lambda>acc (k, h). clearTimeout h acc) g tab))"
proof (induction tab arbitrary: g)
  case Nil
  then show ?case by simp
next
  case (Cons x tab)
  obtain k' h' where x: "x = (k', h')" by (cases x)
  have "settled (timers g) (timers (clearTimeout h' g))" by (rule settled_clearTimeout)
  moreover have "settled (timers (clearTimeout h' g))
      (timers (foldl (\<lambda>acc (k, h). clearTimeout h acc) (clearTimeout h' g) tab))"
    by (rule Cons.IH)
  ultimately have "settled (timers g)
      (timers (foldl (\<lambda>acc (k, h). clearTimeout h acc) (clearTimeout h' g) tab))"
    by (rule settled_trans)
  then show ?case by (simp add: x)
qed

lemma cleared_foldl_clearTimeout:
  "(k, h) \<in> set tab \<Longrightarrow> h < length (timers g) \<Longrightarrow>
   timer_status (timers (foldl (\<lambda>acc (k, h). clearTimeout h acc) g tab) ! h) \<noteq> Pending"
proof (induction tab arbitrary: g)
  case Nil
  then show ?case by simp
next
  case (Cons x tab)
  obtain k' h' where x: "x = (k', h')" by (cases x)
  let ?g1 = "clearTimeout h' g"
  let ?f = "foldl (\<lambda>acc (k, h). clearTimeout h acc) ?g1 tab"
  have len: "length (timers ?g1) = length (timers g)"
    using settled_clearTimeout[of g h'] by (rule settled_length)
  have "timer_status (timers ?f ! h) \<noteq> Pending"
  proof (cases "(k, h) \<in> set tab")
    case True
    then show ?thesis using Cons.IH[of ?g1] Cons.prems(2) len by simp
  next
    case False
    then have "h' = h" using Cons.prems(1) x by simp
    then have c: "timer_status (timers ?g1 ! h) \<noteq> Pending"
      using cleared_clearTimeout[of h g] Cons.prems(2) by simp
    have "settled (timers ?g1) (timers ?f)" by (rule settled_foldl_clearTimeout)
    then have "timer_status (timers ?f ! h) = Pending \<longrightarrow> timer_status (timers ?g1 ! h) = Pending"
      using settled_nth[of "timers ?g1" "timers ?f" h] Cons.prems(2) len by simp
    then show ?thesis using c by blast
  qed
  then show ?case by (simp add: x)
qed

lemma stop_ok:
  assumes i: "idle_ok (timers g) (timeoutTimers g)"
  shows "table_ok (timers (stop g)) (timeoutTimers (stop g))"
    and "idle_ok (timers (stop g)) (timeoutTimers (stop g))"
proof -
  let ?g2 = "(foldl (\<lambda>acc (cid, w). socket_close w 1001 ''Server shutting down'' acc) g
                 (connections g))\<lparr> connections := [] \<rparr>"
  let ?ts = "timers (foldl (\<lambda>acc (k, h). clearTimeout h acc) ?g2 (timeoutTimers g))"
  have g2: "timers ?g2 = timers g" "timeoutTimers ?g2 = timeoutTimers g" by simp_all
  have T: "timers (stop g) = ?ts" by (simp add: stop_def Let_def)
  have B: "timeoutTimers (stop g) = []" by (simp add: stop_fields)
  show "table_ok (timers (stop g)) (timeoutTimers (stop g))"
    unfolding B by (simp add: table_ok_def)
  have s: "settled (timers g) ?ts"
    using settled_foldl_clearTimeout[of ?g2 "timeoutTimers g"] g2 by simp
  show "idle_ok (timers (stop g)) (timeoutTimers (stop g))"
    unfolding T B idle_ok_def
  proof (intro allI impI)
    fix h
    assume a: "h < length ?ts \<and> timer_status (?ts ! h) = Pending \<and> timer_kind (?ts ! h) = Idle"
    have len: "length ?ts = length (timers g)" using s by (rule settled_length)
    have hl: "h < length (timers g)" using a len by simp
    have "timer_status (timers g ! h) = Pending" "timer_kind (timers g ! h) = Idle"
      using settled_nth[OF s hl] a by simp_all
    then have "map_of (timeoutTimers g) (timer_key (timers g ! h)) = Some h"
      using i hl by (simp add: idle_ok_def)
    then have "(timer_key (timers g ! h), h) \<in> set (timeoutTimers g)" by (rule map_of_SomeD)
    then have "timer_status (?ts ! h) \<noteq> Pending"
      using cleared_foldl_clearTimeout[of "timer_key (timers g ! h)" h "timeoutTimers g" ?g2]
        a len g2 by simp
    then show "map_of [] (timer_key (?ts ! h)) = Some h" using a by simp
  qed
qed


lemma step_ok:
  assumes t: "table_ok (timers g) (timeoutTimers g)"
    and i: "idle_ok (timers g) (timeoutTimers g)"
  shows "table_ok (timers (step P g ev)) (timeoutTimers (step P g ev))
         \<and> idle_ok (timers (step P g ev)) (timeoutTimers (step P g ev))"
proof (cases ev)
  case (Upgrade w req c e)
  define g1 where "g1 = g\<lparr> sockets :=
                   AList.update w \<lparr> readyState = OPEN, sent = [], close_call = None \<rparr> (sockets g),
                 heap := AList.update w
                   \<lparr> conn_id = c, ws = w, connectedAt = now e, lastActivityAt = now e,
              queryParams = parse_query (searchParams req),
              headers = parse_headers (raw_headers req),
              sourceIp = replace_first ''::ffff:'' []
                (case remoteAddress req of
                   None \<Rightarrow> ''127.0.0.1''
                 | Some a \<Rightarrow> if a = [] then ''127.0.0.1'' else a),
              userAgent =
                (case map_of (raw_headers req) ''user-agent'' of
                   Some (HString s) \<Rightarrow> s
                 | _ \<Rightarrow> []) \<rparr> (heap g),
                 connections := AList.update c w (connections g) \<rparr>"
  have a: "table_ok (timers g1) (timeoutTimers g1)" "idle_ok (timers g1) (timeoutTimers g1)"
    using t i by (simp_all add: g1_def)
  have "timers (step P g ev) = timers (setupTimeouts c g1)"
      "timeoutTimers (step P g ev) = timeoutTimers (setupTimeouts c g1)"
    unfolding Upgrade by (simp_all add: handleConnection_def Let_def g1_def)
  then show ?thesis using setupTimeouts_ok[OF a] by simp
next
  case (ConnectResolved w b)
  then show ?thesis using t i by (simp add: connect_resolved_def)
next
  case (Frame w m e)
  show ?thesis
  proof (cases "map_of (heap g) w")
    case None
    then show ?thesis using Frame t i by (simp add: on_message_def)
  next
    case (Some c)
    define g1 where "g1 = g\<lparr> heap := AList.update w (c\<lparr> lastActivityAt := now e \<rparr>) (heap g) \<rparr>"
    have a: "table_ok (timers g1) (timeoutTimers g1)" "idle_ok (timers g1) (timeoutTimers g1)"
      using t i by (simp_all add: g1_def)
    have "timers (step P g ev) = timers (resetIdleTimeout (conn_id c) g1)"
      "timeoutTimers (step P g ev) = timeoutTimers (resetIdleTimeout (conn_id c) g1)"
      unfolding Frame using Some by (simp_all add: on_message_def Let_def g1_def)
    then show ?thesis using resetIdleTimeout_ok[OF a] by simp
  qed
next
  case (SocketClosed w code reason e)
  show ?thesis
  proof (cases "map_of (heap g) w")
    case None
    then show ?thesis using SocketClosed t i by (simp add: on_close_def)
  next
    case (Some c)
    define g0 where "g0 = (case map_of (sockets g) w of
                       None \<Rightarrow> g
                     | Some sock \<Rightarrow>
                         g\<lparr> sockets := AList.update w (sock\<lparr> readyState := CLOSED \<rparr>) (sockets g) \<rparr>)"
    define g1 where "g1 = g0\<lparr> outbox := outbox g0 @
                      [callBackend (config g) ''$disconnect'' c None
                         (Some \<lparr> disconnectStatusCode = code, disconnectReason = reason \<rparr>) e] \<rparr>"
    have e: "timers g1 = timers g" "timeoutTimers g1 = timeoutTimers g"
      by (simp_all add: g1_def g0_def split: option.splits)
    have a: "table_ok (timers g1) (timeoutTimers g1)" "idle_ok (timers g1) (timeoutTimers g1)"
      using t i e by simp_all
    have "timers (step P g ev) = timers (clearTimeouts (conn_id c) g1)"
      "timeoutTimers (step P g ev) = timeoutTimers (clearTimeouts (conn_id c) g1)"
      unfolding SocketClosed using Some by (simp_all add: on_close_def Let_def g1_def g0_def)
    then show ?thesis using clearTimeouts_ok[OF a] by simp
  qed
next
  case (TimerFired h)
  then show ?thesis using timer_fired_ok[OF t i] by simp
next
  case (Http req e u)
  then show ?thesis using t i by simp
next
  case Stop
  then show ?thesis using stop_ok[OF i] by simp
qed

lemma run_snoc: "run P g (evs @ [ev]) = step P (run P g evs) ev"
  by (simp add: run_def)

lemma run_ok:
  "table_ok (timers (run P (new_gateway cfg) evs)) (timeoutTimers (run P (new_gateway cfg) evs))
   \<and> idle_ok (timers (run P (new_gateway cfg) evs)) (timeoutTimers (run P (new_gateway cfg) evs))"
proof (induction evs rule: rev_induct)
  case Nil
  then show ?case by (simp add: run_def new_gateway_def table_ok_def idle_ok_def)
next
  case (snoc ev evs)
  then show ?case using step_ok[of "run P (new_gateway cfg) evs" P ev] by (simp add: run_snoc)
qed

lemma count_distinct: "distinct xs \<Longrightarrow> count_list xs x = (if x \<in> set xs then 1 else 0)"
  by (induction xs) auto

lemma key_kind_idle: "timer_key t = c @ '':idle'' \<Longrightarrow> timer_kind t = Idle \<and> timer_connectionId t = c"
  by (cases "timer_kind t") (simp_all add: timer_key_def)

lemma hard_timers_clear_idle:
  assumes "table_ok (timers g) (timeoutTimers g)"
  shows "hard_timers cid (clear_if_set (map_of (timeoutTimers g) (c @ '':idle'')) g)
           = hard_timers cid g"
proof (cases "map_of (timeoutTimers g) (c @ '':idle'')")
  case None
  then show ?thesis by (simp add: clear_if_set_def)
next
  case (Some h)
  then have h: "h < length (timers g)" "timer_key (timers g ! h) = c @ '':idle''"
    using assms by (simp_all add: table_ok_def)
  then have k: "timer_kind (timers g ! h) = Idle" using key_kind_idle by blast
  show ?thesis
    using Some h(1) k
    by (simp add: clear_if_set_def hard_timers_def timers_clearTimeout filter_update_outside)
qed

lemma hard_timers_resetIdleTimeout:
  assumes "table_ok (timers g) (timeoutTimers g)"
  shows "hard_timers cid (resetIdleTimeout c g) = hard_timers cid g"
proof -
  have "hard_timers cid (resetIdleTimeout c g) =
      hard_timers cid (clear_if_set (map_of (timeoutTimers g) (c @ '':idle'')) g)"
    by (simp add: hard_timers_def timers_resetIdleTimeout)
  then show ?thesis using hard_timers_clear_idle[OF assms] by simp
qed

lemma hard_timers_frame:
  assumes "table_ok (timers g) (timeoutTimers g)"
  shows "hard_timers cid (step P g (Frame w m e)) = hard_timers cid g"
proof (cases "map_of (heap g) w")
  case None
  then show ?thesis by (simp add: on_message_def)
next
  case (Some c)
  define g1 where "g1 = g\<lparr> heap := AList.update w (c\<lparr> lastActivityAt := now e \<rparr>) (heap g) \<rparr>"
  have a: "table_ok (timers g1) (timeoutTimers g1)" using assms by (simp add: g1_def)
  have "timers (step P g (Frame w m e)) = timers (resetIdleTimeout (conn_id c) g1)"
    using Some by (simp add: on_message_def Let_def g1_def)
  then have "hard_timers cid (step P g (Frame w m e)) = hard_timers cid (resetIdleTimeout (conn_id c) g1)"
    by (simp add: hard_timers_def)
  also have "\<dots> = hard_timers cid g1" using a by (rule hard_timers_resetIdleTimeout)
  also have "\<dots> = hard_timers cid g" by (simp add: hard_timers_def g1_def)
  finally show ?thesis .
qed

lemma pending_idle_at_most_one:
  assumes "idle_ok (timers g) (timeoutTimers g)"
  shows "length (pending_of cid Idle g) \<le> 1"
  unfolding pending_of_def
proof (rule filter_at_most_one)
  fix i j
  assume a: "i < length (timers g)" "j < length (timers g)"
    "timer_connectionId (timers g ! i) = cid \<and> timer_kind (timers g ! i) = Idle
       \<and> timer_status (timers g ! i) = Pending"
    "timer_connectionId (timers g ! j) = cid \<and> timer_kind (timers g ! j) = Idle
       \<and> timer_status (timers g ! j) = Pending"
  have mi: "map_of (timeoutTimers g) (timer_key (timers g ! i)) = Some i"
    using assms a(1,3) by (simp add: idle_ok_def)
  have mj: "map_of (timeoutTimers g) (timer_key (timers g ! j)) = Some j"
    using assms a(2,4) by (simp add: idle_ok_def)
  have ki: "timer_key (timers g ! i) = cid @ '':idle''"
    using a(3) by (simp add: timer_key_def)
  have kj: "timer_key (timers g ! j) = cid @ '':idle''"
    using a(4) by (simp add: timer_key_def)
  have "Some i = Some j" using mi mj unfolding ki kj by simp
  then show "i = j" by simp
qed

lemma pending_idle_after_reset:
  assumes t: "table_ok (timers g) (timeoutTimers g)"
    and i: "idle_ok (timers g) (timeoutTimers g)"
  shows "pending_of cid Idle (resetIdleTimeout cid g) =
           [\<lparr> timer_connectionId = cid, timer_kind = Idle,
              timer_delay = timeout_after (idleTimeout (config g) * 1000), timer_status = Pending \<rparr>]"
proof -
  let ?x = "map_of (timeoutTimers g) (cid @ '':idle'')"
  let ?ts1 = "timers (clear_if_set ?x g)"
  let ?Q = "\<lambda>t. timer_connectionId t = cid \<and> timer_kind t = Idle \<and> timer_status t = Pending"
  have s: "settled (timers g) ?ts1" by (rule settled_clear_if_set)
  have len: "length ?ts1 = length (timers g)" using s by (rule settled_length)
  have i1: "idle_ok ?ts1 (timeoutTimers g)" using settled_ok[OF s t i] by simp
  have "filter ?Q ?ts1 = []"
  proof (rule ccontr)
    assume "filter ?Q ?ts1 \<noteq> []"
    then obtain y where "y \<in> set ?ts1" "?Q y" by (auto simp: filter_empty_conv)
    then obtain h where h: "h < length ?ts1" "?Q (?ts1 ! h)" by (auto simp: in_set_conv_nth)
    then have "map_of (timeoutTimers g) (timer_key (?ts1 ! h)) = Some h"
      using i1 by (simp add: idle_ok_def)
    moreover have "timer_key (?ts1 ! h) = cid @ '':idle''" using h(2) by (simp add: timer_key_def)
    ultimately have "?x = Some h" by simp
    then have "timer_status (?ts1 ! h) \<noteq> Pending"
      using cleared_clear_if_set[of h g] h(1) len by simp
    then show False using h(2) by simp
  qed
  then show ?thesis by (simp add: pending_of_def timers_resetIdleTimeout)
qed

lemma previous_idle_cancelled:
  assumes t: "table_ok (timers g) (timeoutTimers g)"
    and m: "map_of (timeoutTimers g) (cid @ '':idle'') = Some h"
  shows "timer_status (timers (resetIdleTimeout cid g) ! h) \<noteq> Pending"
proof -
  have h: "h < length (timers g)" using t m by (simp add: table_ok_def)
  have len: "length (timers (clear_if_set (Some h) g)) = length (timers g)"
    using settled_clear_if_set[of g "Some h"] by (rule settled_length)
  show ?thesis
    using cleared_clear_if_set[OF h] h len m by (simp add: timers_resetIdleTimeout nth_append)
qed

text \<open>A frame resets the idle timer of the session whose socket it arrived on.\<close>

lemma pending_only_timers:
  "timers g' = timers g \<Longrightarrow> pending_of cid k g' = pending_of cid k g"
  by (simp add: pending_of_def)

lemma frame_resets_idle:
  assumes t: "table_ok (timers g) (timeoutTimers g)"
    and i: "idle_ok (timers g) (timeoutTimers g)"
    and c: "map_of (heap g) w = Some c"
  shows "pending_of (conn_id c) Idle (step P g (Frame w m e)) =
           [\<lparr> timer_connectionId = conn_id c, timer_kind = Idle,
              timer_delay = timeout_after (idleTimeout (config g) * 1000),
              timer_status = Pending \<rparr>]"
    and "map_of (timeoutTimers g) (conn_id c @ '':idle'') = Some h \<Longrightarrow>
           timer_status (timers (step P g (Frame w m e)) ! h) \<noteq> Pending"
proof -
  define g1 where "g1 = g\<lparr> heap := AList.update w (c\<lparr> lastActivityAt := now e \<rparr>) (heap g) \<rparr>"
  have a: "table_ok (timers g1) (timeoutTimers g1)" "idle_ok (timers g1) (timeoutTimers g1)"
    using t i by (simp_all add: g1_def)
  have T: "timers (step P g (Frame w m e)) = timers (resetIdleTimeout (conn_id c) g1)"
    using c by (simp add: on_message_def Let_def g1_def)
  have "pending_of (conn_id c) Idle (step P g (Frame w m e)) =
      pending_of (conn_id c) Idle (resetIdleTimeout (conn_id c) g1)"
    using T by (rule pending_only_timers)
  also have "\<dots> = [\<lparr> timer_connectionId = conn_id c, timer_kind = Idle,
              timer_delay = timeout_after (idleTimeout (config g1) * 1000),
              timer_status = Pending \<rparr>]"
    using a by (rule pending_idle_after_reset)
  finally show "pending_of (conn_id c) Idle (step P g (Frame w m e)) =
           [\<lparr> timer_connectionId = conn_id c, timer_kind = Idle,
              timer_delay = timeout_after (idleTimeout (config g) * 1000),
              timer_status = Pending \<rparr>]"
    by (simp add: g1_def)
  assume m: "map_of (timeoutTimers g) (conn_id c @ '':idle'') = Some h"
  then have m1: "map_of (timeoutTimers g1) (conn_id c @ '':idle'') = Some h"
    by (simp add: g1_def)
  show "timer_status (timers (step P g (Frame w m e)) ! h) \<noteq> Pending"
    unfolding T using a(1) m1 by (rule previous_idle_cancelled)
qed

text \<open>
  A management push of \<^verbatim>\<open>ping\<close> to the session of \<open>live0\<close>, and what \<open>handleHttpRequest\<close>
  answers it.
\<close>

definition post0 :: http_request where
  "post0 = \<lparr> http_method = ''POST'', http_pathname = ''/@connections/AbCdEfGhIjKl='',
             http_body = ''ping'' \<rparr>"

lemma run_live0: "run P (new_gateway DEFAULT_CONFIG) [Upgrade 0 req0 ''AbCdEfGhIjKl='' e0] = live0"
  by (simp add: run_def live0_def)

lemma post0_answer:
  "handleHttpRequest post0 e0 0 live0 = Inr (handleManagementApi ''POST'' ''AbCdEfGhIjKl='' ''ping'' e0 live0)"
  by (simp add: handleHttpRequest_def post0_def match_connections_def Let_def)

lemma post0_status:
  "res_status (fst (handleManagementApi ''POST'' ''AbCdEfGhIjKl='' ''ping'' e0 live0)) = 200"
  using live0_get live0_open
  by (simp add: handleManagementApi_def empty_response_def)


text \<open>
  \<open>generateConnectionId\<close> draws twelve characters with \<^verbatim>\<open>Math.random\<close> and does not look
  at the live set. When it returns an id a second time, the hard timer made for the first
  admission is no longer in the table and stays pending beside the new one.
\<close>

lemma repeated_id_two_hard_timers:
  "pending_of ''AbCdEfGhIjKl='' Hard
     (run (\<lambda>m. None) (new_gateway DEFAULT_CONFIG)
        [Upgrade 0 req0 ''AbCdEfGhIjKl='' e0, Upgrade 1 req0 ''AbCdEfGhIjKl='' e0]) =
   [\<lparr> timer_connectionId = ''AbCdEfGhIjKl='', timer_kind = Hard, timer_delay = 7200000,
      timer_status = Pending \<rparr>,
    \<lparr> timer_connectionId = ''AbCdEfGhIjKl='', timer_kind = Hard, timer_delay = 7200000,
      timer_status = Pending \<rparr>]"
  by (simp add: run_def handleConnection_def Let_def new_gateway_def pending_of_def
      timers_setupTimeouts timers_resetIdleTimeout clear_if_set_def timers_clearTimeout
      update_conv' DEFAULT_CONFIG_def timeout_after_def TIMEOUT_MAX_def)

text \<open>
  Claim C8 says that the hard timer of a session is scheduled exactly once, at its
  creation, for \<open>hardTimeout\<close> seconds and is never reset, that frames and management
  pushes reset only the idle timer, that a session has at most two active timers, keyed
  \<^verbatim>\<open><id>:idle\<close> and \<^verbatim>\<open><id>:hard\<close>, and that an idle reset cancels the previous idle timer
  before it schedules a fresh one. In every state a run reaches, the code does this. Each
  admission under an id makes one hard timer for that id, with the delay \<^verbatim>\<open>setTimeout\<close>
  gives \<open>hardTimeout * 1000\<close> milliseconds, and nothing else makes one; the id has at most as
  many pending hard timers as it was admitted times, and at most one pending idle timer;
  no frame and no HTTP request touches a hard timer; every entry of the timer table is
  stored under the key \<^verbatim>\<open><id>:idle\<close> or \<^verbatim>\<open><id>:hard\<close> of the timer it holds; an idle reset,
  and with it every frame of a session, leaves the idle timer stored before no longer
  pending and exactly one pending idle timer for the session, the fresh one. An HTTP
  request, a management push included, changes no timer and no entry of the table: a
  push does not reset the idle timer.
\<close>

theorem session_timers:
  assumes "g = run P (new_gateway cfg) evs"
  shows "map timer_delay (hard_timers cid g) =
           replicate (count_list (upgrade_ids evs) cid) (timeout_after (hardTimeout cfg * 1000))
         \<and> length (pending_of cid Hard g) \<le> count_list (upgrade_ids evs) cid
         \<and> hard_timers cid (step P g (Frame w m e)) = hard_timers cid g
         \<and> hard_timers cid (step P g (Http req e u)) = hard_timers cid g
         \<and> length (pending_of cid Idle g) \<le> 1
         \<and> (\<forall>k h. map_of (timeoutTimers g) k = Some h \<longrightarrow>
               h < length (timers g) \<and> k = timer_key (timers g ! h))
         \<and> (\<forall>h. map_of (timeoutTimers g) (cid @ '':idle'') = Some h \<longrightarrow>
               timer_status (timers (resetIdleTimeout cid g) ! h) \<noteq> Pending)
         \<and> pending_of cid Idle (resetIdleTimeout cid g) =
             [\<lparr> timer_connectionId = cid, timer_kind = Idle,
                timer_delay = timeout_after (idleTimeout cfg * 1000), timer_status = Pending \<rparr>]
         \<and> (\<forall>c. map_of (heap g) w = Some c \<longrightarrow>
               pending_of (conn_id c) Idle (step P g (Frame w m e)) =
                 [\<lparr> timer_connectionId = conn_id c, timer_kind = Idle,
                    timer_delay = timeout_after (idleTimeout cfg * 1000),
                    timer_status = Pending \<rparr>]
               \<and> (\<forall>h. map_of (timeoutTimers g) (conn_id c @ '':idle'') = Some h \<longrightarrow>
                     timer_status (timers (step P g (Frame w m e)) ! h) \<noteq> Pending))
         \<and> timers (step P g (Http req e u)) = timers g
         \<and> timeoutTimers (step P g (Http req e u)) = timeoutTimers g"
proof -
  have ok: "table_ok (timers g) (timeoutTimers g)" "idle_ok (timers g) (timeoutTimers g)"
    using run_ok[of P cfg evs] assms by simp_all
  have cfg: "hardTimeout (config g) = hardTimeout cfg" "idleTimeout (config g) = idleTimeout cfg"
    using assms by (simp_all add: new_gateway_def)
  have c1: "map timer_delay (hard_timers cid g) =
           replicate (count_list (upgrade_ids evs) cid) (timeout_after (hardTimeout cfg * 1000))"
    using hard_delays_run[of cid P "new_gateway cfg" evs] assms
    by (simp add: hard_delays_def hard_timers_def new_gateway_def)
  have c2: "length (pending_of cid Hard g) \<le> count_list (upgrade_ids evs) cid"
  proof -
    have "pending_of cid Hard g = filter (\<lambda>t. timer_status t = Pending) (hard_timers cid g)"
      unfolding pending_of_def hard_timers_def filter_filter
      by (rule filter_cong) auto
    then have "length (pending_of cid Hard g) \<le> length (hard_timers cid g)" by simp
    also have "\<dots> = length (map timer_delay (hard_timers cid g))" by simp
    also have "\<dots> = count_list (upgrade_ids evs) cid" unfolding c1 by simp
    finally show ?thesis .
  qed
  have c3: "hard_timers cid (step P g (Frame w m e)) = hard_timers cid g"
    using ok(1) by (rule hard_timers_frame)
  have c4: "hard_timers cid (step P g (Http req e u)) = hard_timers cid g"
    by (simp add: hard_timers_def)
  have c5: "length (pending_of cid Idle g) \<le> 1"
    using ok(2) by (rule pending_idle_at_most_one)
  have c6: "\<forall>k h. map_of (timeoutTimers g) k = Some h \<longrightarrow>
               h < length (timers g) \<and> k = timer_key (timers g ! h)"
    using ok(1) by (auto simp: table_ok_def)
  have c7: "\<forall>h. map_of (timeoutTimers g) (cid @ '':idle'') = Some h \<longrightarrow>
               timer_status (timers (resetIdleTimeout cid g) ! h) \<noteq> Pending"
    using previous_idle_cancelled[OF ok(1)] by blast
  have c8: "pending_of cid Idle (resetIdleTimeout cid g) =
             [\<lparr> timer_connectionId = cid, timer_kind = Idle,
                timer_delay = timeout_after (idleTimeout cfg * 1000), timer_status = Pending \<rparr>]"
    using pending_idle_after_reset[OF ok] cfg by simp
  have c9: "\<forall>c. map_of (heap g) w = Some c \<longrightarrow>
               pending_of (conn_id c) Idle (step P g (Frame w m e)) =
                 [\<lparr> timer_connectionId = conn_id c, timer_kind = Idle,
                    timer_delay = timeout_after (idleTimeout cfg * 1000),
                    timer_status = Pending \<rparr>]
               \<and> (\<forall>h. map_of (timeoutTimers g) (conn_id c @ '':idle'') = Some h \<longrightarrow>
                     timer_status (timers (step P g (Frame w m e)) ! h) \<noteq> Pending)"
    using frame_resets_idle[OF ok] cfg by simp
  have c10: "timers (step P g (Http req e u)) = timers g" by simp
  have c11: "timeoutTimers (step P g (Http req e u)) = timeoutTimers g" by simp
  show ?thesis
    using c1 c2 c3 c4 c5 c6 c7 c8 c9 c10 c11 by blast
qed

theorem session_timers_witness:
  "map timer_delay (hard_timers ''AbCdEfGhIjKl='' live0) = [7200000]
   \<and> length (pending_of ''AbCdEfGhIjKl='' Hard live0) \<le> 1
   \<and> length (pending_of ''AbCdEfGhIjKl='' Idle live0) \<le> 1
   \<and> pending_of ''AbCdEfGhIjKl='' Idle (step (\<lambda>m. None) live0 (Frame 0 ''hello'' e0)) =
       [\<lparr> timer_connectionId = ''AbCdEfGhIjKl='', timer_kind = Idle, timer_delay = 600000,
          timer_status = Pending \<rparr>]
   \<and> hard_timers ''AbCdEfGhIjKl='' (step (\<lambda>m. None) live0 (Frame 0 ''hello'' e0)) =
       hard_timers ''AbCdEfGhIjKl='' live0
   \<and> handleHttpRequest post0 e0 0 live0 =
       Inr (handleManagementApi ''POST'' ''AbCdEfGhIjKl='' ''ping'' e0 live0)
   \<and> res_status (fst (handleManagementApi ''POST'' ''AbCdEfGhIjKl='' ''ping'' e0 live0)) = 200
   \<and> timers (step (\<lambda>m. None) live0 (Http post0 e0 0)) = timers live0
   \<and> timeoutTimers (step (\<lambda>m. None) live0 (Http post0 e0 0)) = timeoutTimers live0
   \<and> map timer_delay (hard_timers ''AbCdEfGhIjKl=''
        (run (\<lambda>m. None) (new_gateway (DEFAULT_CONFIG\<lparr> hardTimeout := 2592000 \<rparr>))
           [Upgrade 0 req0 ''AbCdEfGhIjKl='' e0])) = [1]
   \<and> map timer_delay (hard_timers ''AbCdEfGhIjKl=''
        (run (\<lambda>m. None) (new_gateway DEFAULT_CONFIG)
           [Upgrade 0 req0 ''AbCdEfGhIjKl='' e0, Upgrade 1 req0 ''AbCdEfGhIjKl='' e0]))
       = [7200000, 7200000]"
proof -
  have r: "live0 = run (\<lambda>m. None) (new_gateway DEFAULT_CONFIG) [Upgrade 0 req0 ''AbCdEfGhIjKl='' e0]"
    by (simp add: run_live0)
  have c: "conn_id conn0 = ''AbCdEfGhIjKl=''" by (simp add: conn0_def)
  have n: "replicate 2 (7200000::int) = [7200000, 7200000]" by (simp add: numeral_2_eq_2)
  show ?thesis
    using session_timers [OF r, of "''AbCdEfGhIjKl=''" 0 "''hello''" e0 post0 0]
      session_timers [OF refl, of "''AbCdEfGhIjKl=''" "\<lambda>m. None"
        "DEFAULT_CONFIG\<lparr> hardTimeout := 2592000 \<rparr>" "[Upgrade 0 req0 ''AbCdEfGhIjKl='' e0]"]
      session_timers [OF refl, of "''AbCdEfGhIjKl=''" "\<lambda>m. None" DEFAULT_CONFIG
        "[Upgrade 0 req0 ''AbCdEfGhIjKl='' e0, Upgrade 1 req0 ''AbCdEfGhIjKl='' e0]"]
      live0_heap post0_answer post0_status c n
    by (simp add: DEFAULT_CONFIG_def timeout_after_def TIMEOUT_MAX_def)
qed

end
